theory Spec2Isabelle
  imports Main "HOL-Library.Char_ord" "HOL-Library.List_Lexorder"
begin

section \<open>The attendance API of server.js: data model\<close>

text \<open>
  The program is one Express application (\<^verbatim>\<open>src/server.js\<close>) over a PostgreSQL store.
  The store is modelled as a record of tables (lists of rows, in insertion order) together
  with the SERIAL sequences, the list of statements the handlers have issued, a flag
  telling whether the store answers, and the state of the pooled client: whether a
  transaction is open on it, and the rows that transaction has written. The schema is
  the one \<^verbatim>\<open>POST /api/init-db\<close> creates; the relations are taken to exist. Its
  constraints that an INSERT of the program can violate (PRIMARY KEY, UNIQUE, REFERENCES)
  are checked by the insert functions below.
  Column widths (\<^verbatim>\<open>VARCHAR(n)\<close>) are not modelled: strings are taken to fit their columns.
\<close>

subsection \<open>JSON values\<close>

text \<open>Response payloads, as \<^verbatim>\<open>res.json\<close> sends them.\<close>

datatype json =
  JNull
| JBool bool
| JNum int
| JStr string
| JArr "json list"
| JObj "(string \<times> json) list"

text \<open>
  A field of a request body, as the handlers inspect it. \<open>StrArr\<close> is an array of strings
  (the tokens of a verification batch); arrays with elements of other types are outside
  the model, since what the database driver compares them with is not code of this program.
\<close>

datatype reqval =
  Undefined
| Null
| Bool bool
| Num int
| Str string
| StrArr "string list"
| Obj

text \<open>JavaScript truthiness (\<^verbatim>\<open>!v\<close> is its negation) and \<^verbatim>\<open>Array.isArray\<close>.\<close>

fun truthy :: "reqval \<Rightarrow> bool" where
  "truthy Undefined = False"
| "truthy Null = False"
| "truthy (Bool b) = b"
| "truthy (Num n) = (n \<noteq> 0)"
| "truthy (Str s) = (s \<noteq> [])"
| "truthy (StrArr ts) = True"
| "truthy Obj = True"

fun isArray :: "reqval \<Rightarrow> bool" where
  "isArray (StrArr ts) = True"
| "isArray v = False"

text \<open>The optional integer \<^verbatim>\<open>classroom_id\<close> of a verification request.\<close>

datatype optint = Omitted | NullValue | IntValue int

subsection \<open>Tables\<close>

record person =
  person_id :: int
  name :: string
  rfid_tag :: string
  role :: string
  id_number :: "string option"

record section_row =
  section_id :: int
  section_name :: string

record classroom =
  classroom_id :: int
  room_number :: string

record attendance_row =
  attendance_id :: int
  att_person_id :: int
  att_classroom_id :: "int option"
  timestamp :: nat

text \<open>Every statement the handlers send to the store, by name.\<close>

datatype stmt =
  Connect | Begin | Commit | Rollback | Release
| SelectVerified | InsertAttendance
| SelectTag | SelectIdNumber | SelectSection | InsertSection | InsertPerson | InsertLink
| SelectSections | SelectAttendance | SelectStudents | InitDb

text \<open>
  The rows a transaction has inserted and not yet committed, and the state of a client:
  no transaction open, a transaction open, or a transaction that a refused statement has
  aborted (every further statement is refused until it ends).
\<close>

record txn =
  tx_persons :: "person list"
  tx_sections :: "section_row list"
  tx_links :: "(int \<times> int) list"
  tx_classrooms :: "classroom list"
  tx_attendance :: "attendance_row list"

datatype conn_state = Idle | InTx txn | Aborted

text \<open>
  The tables hold committed rows only. Requests are taken one after the other, and the
  pool is modelled with one client (a pool hands out an idle client before it opens a new
  one): every \<^verbatim>\<open>pool.connect\<close> and every \<^verbatim>\<open>pool.query\<close> obtains the client that
  the previous one released, in the state it was released in, and the inserts that one
  verification issues together are taken on it in order. Sequences are not transactional.
\<close>

record db =
  persons :: "person list"
  sections :: "section_row list"
  student_sections :: "(int \<times> int) list"
  classrooms :: "classroom list"
  attendance :: "attendance_row list"
  persons_seq :: int
  sections_seq :: int
  classrooms_seq :: int
  attendance_seq :: int
  clock :: nat
  online :: bool
  issued :: "stmt list"
  conn :: conn_state

text \<open>SQLSTATE codes of the errors the store raises in the model.\<close>

type_synonym sqlstate = string

definition unique_violation :: sqlstate where
  "unique_violation = ''23505''"

definition foreign_key_violation :: sqlstate where
  "foreign_key_violation = ''23503''"

definition connection_failure :: sqlstate where
  "connection_failure = ''08006''"

definition invalid_text_representation :: sqlstate where
  "invalid_text_representation = ''22P02''"

definition in_failed_sql_transaction :: sqlstate where
  "in_failed_sql_transaction = ''25P02''"

subsection \<open>Statements on the pooled client\<close>

definition no_writes :: txn where
  "no_writes = \<lparr>tx_persons = [], tx_sections = [], tx_links = [], tx_classrooms = [],
                tx_attendance = []\<rparr>"

definition join_writes :: "txn \<Rightarrow> txn \<Rightarrow> txn" where
  "join_writes t w =
     \<lparr>tx_persons = tx_persons t @ tx_persons w,
      tx_sections = tx_sections t @ tx_sections w,
      tx_links = tx_links t @ tx_links w,
      tx_classrooms = tx_classrooms t @ tx_classrooms w,
      tx_attendance = tx_attendance t @ tx_attendance w\<rparr>"

text \<open>Appending rows to the committed tables.\<close>

definition store :: "txn \<Rightarrow> db \<Rightarrow> db" where
  "store w d = d\<lparr>persons := persons d @ tx_persons w,
                 sections := sections d @ tx_sections w,
                 student_sections := student_sections d @ tx_links w,
                 classrooms := classrooms d @ tx_classrooms w,
                 attendance := attendance d @ tx_attendance w\<rparr>"

text \<open>
  What a statement on the client reads: the committed rows, and the rows of the
  transaction open on the client.
\<close>

definition view :: "db \<Rightarrow> db" where
  "view d = (case conn d of InTx t \<Rightarrow> store t d | _ \<Rightarrow> d)"

text \<open>
  What an accepted INSERT does with its rows: inside an open transaction they are pending,
  otherwise the statement commits them itself.
\<close>

definition put_rows :: "txn \<Rightarrow> db \<Rightarrow> db" where
  "put_rows w d = (case conn d of InTx t \<Rightarrow> d\<lparr>conn := InTx (join_writes t w)\<rparr> | _ \<Rightarrow> store w d)"

text \<open>A statement the store refuses aborts the transaction it runs in.\<close>

definition abort_tx :: "db \<Rightarrow> db" where
  "abort_tx d = (case conn d of InTx t \<Rightarrow> d\<lparr>conn := Aborted\<rparr> | _ \<Rightarrow> d)"

text \<open>BEGIN, COMMIT and ROLLBACK. BEGIN inside an open transaction is a warning only.\<close>

definition begin_tx :: "db \<Rightarrow> sqlstate + db" where
  "begin_tx d = (case conn d of
                Idle \<Rightarrow> Inr (d\<lparr>conn := InTx no_writes\<rparr>)
              | InTx t \<Rightarrow> Inr d
              | Aborted \<Rightarrow> Inl in_failed_sql_transaction)"

definition commit_tx :: "db \<Rightarrow> db" where
  "commit_tx d = (case conn d of InTx t \<Rightarrow> (store t d)\<lparr>conn := Idle\<rparr> | _ \<Rightarrow> d\<lparr>conn := Idle\<rparr>)"

definition rollback_tx :: "db \<Rightarrow> db" where
  "rollback_tx d = d\<lparr>conn := Idle\<rparr>"

text \<open>
  Why the store refuses a \<^verbatim>\<open>pool.query\<close> before looking at it: it cannot be reached, or
  the client carries an aborted transaction.
\<close>

definition refused :: "db \<Rightarrow> sqlstate option" where
  "refused d = (if \<not> online d then Some connection_failure
                else if conn d = Aborted then Some in_failed_sql_transaction
                else None)"

subsection \<open>Responses\<close>

record response =
  status :: nat
  payload :: "(string \<times> json) list"

definition json_ok :: "(string \<times> json) list \<Rightarrow> response" where
  "json_ok obj = \<lparr>status = 200, payload = obj\<rparr>"

definition json_status :: "nat \<Rightarrow> (string \<times> json) list \<Rightarrow> response" where
  "json_status code obj = \<lparr>status = code, payload = obj\<rparr>"

definition failure :: "nat \<Rightarrow> string \<Rightarrow> response" where
  "failure code msg = json_status code [(''success'', JBool False), (''error'', JStr msg)]"

text \<open>Decimal digits of a length, for the template strings of the messages.\<close>

fun string_of_nat :: "nat \<Rightarrow> string" where
  "string_of_nat n =
     (if n < 10 then [char_of (48 + n)]
      else string_of_nat (n div 10) @ [char_of (48 + n mod 10)])"

declare string_of_nat.simps [simp del]

definition opt_str :: "string option \<Rightarrow> json" where
  "opt_str v = (case v of None \<Rightarrow> JNull | Some s \<Rightarrow> JStr s)"

section \<open>POST /api/verify-attendance\<close>

record verify_body =
  req_rfid_tags :: reqval
  req_classroom_id :: optint

text \<open>A row of the SELECT with its two LEFT JOINs.\<close>

record student_row =
  sr_person_id :: int
  sr_name :: string
  sr_rfid_tag :: string
  sr_id_number :: "string option"
  sr_section_name :: "string option"

text \<open>
  \<^verbatim>\<open>LEFT JOIN student_sections ss ON p.person_id = ss.person_id
  LEFT JOIN sections s ON ss.section_id = s.section_id\<close>:
  the \<^verbatim>\<open>section_name\<close> column of the rows the joins produce for one person; one row
  with NULL when a join finds nothing, one row for every link otherwise.
\<close>

definition joined_sections :: "db \<Rightarrow> int \<Rightarrow> string option list" where
  "joined_sections d pid =
     (let links = [l \<leftarrow> student_sections d. fst l = pid] in
      if links = [] then [None]
      else concat (map (\<lambda>l.
             let ss = [s \<leftarrow> sections d. section_id s = snd l] in
             if ss = [] then [None] else map (\<lambda>s. Some (section_name s)) ss) links))"

definition student_rows :: "db \<Rightarrow> person \<Rightarrow> student_row list" where
  "student_rows d p =
     map (\<lambda>sn. \<lparr>sr_person_id = person_id p, sr_name = name p, sr_rfid_tag = rfid_tag p,
                sr_id_number = id_number p, sr_section_name = sn\<rparr>)
         (joined_sections d (person_id p))"

text \<open>\<^verbatim>\<open>WHERE p.rfid_tag = ANY($1) AND p.role = 'student'\<close>; rows in table order.\<close>

definition select_verified :: "db \<Rightarrow> string list \<Rightarrow> student_row list" where
  "select_verified d tags =
     concat (map (student_rows d)
       [p \<leftarrow> persons d. rfid_tag p \<in> set tags \<and> role p = ''student''])"

text \<open>
  \<^verbatim>\<open>INSERT INTO attendance (person_id, classroom_id, timestamp) VALUES ($1, $2, NOW())\<close>
  through the pool. The sequence advances even when the row is refused.
\<close>

definition insert_attendance :: "int \<Rightarrow> int option \<Rightarrow> db \<Rightarrow> sqlstate option \<times> db" where
  "insert_attendance pid cid d =
     (let d1 = d\<lparr>issued := issued d @ [InsertAttendance]\<rparr> in
      case refused d1 of
        Some code \<Rightarrow> (Some code, d1)
      | None \<Rightarrow>
          let aid = attendance_seq d1 + 1;
              d2 = d1\<lparr>attendance_seq := aid\<rparr> in
          if aid \<in> set (map attendance_id (attendance (view d2)))
          then (Some unique_violation, abort_tx d2)
          else if pid \<notin> set (map person_id (persons (view d2)))
          then (Some foreign_key_violation, abort_tx d2)
          else if (case cid of None \<Rightarrow> False
                   | Some c \<Rightarrow> c \<notin> set (map classroom_id (classrooms (view d2))))
          then (Some foreign_key_violation, abort_tx d2)
          else (None, put_rows (no_writes\<lparr>tx_attendance :=
                  [\<lparr>attendance_id = aid, att_person_id = pid, att_classroom_id = cid,
                    timestamp = clock d2\<rparr>]\<rparr>) d2))"

text \<open>
  \<^verbatim>\<open>verifiedStudents.map(student => pool.query(...))\<close>: one insert is issued for every
  row, whatever happens to the others; the list holds the outcome of each.
\<close>

fun log_attendance :: "student_row list \<Rightarrow> int option \<Rightarrow> db \<Rightarrow> sqlstate option list \<times> db" where
  "log_attendance [] cid d = ([], d)"
| "log_attendance (r # rs) cid d =
     (let (e, d1) = insert_attendance (sr_person_id r) cid d;
          (es, d2) = log_attendance rs cid d1
      in (e # es, d2))"

text \<open>The destructuring default \<^verbatim>\<open>classroom_id = 1\<close> applies to an absent field only.\<close>

definition classroom_param :: "optint \<Rightarrow> int option" where
  "classroom_param c = (case c of Omitted \<Rightarrow> Some 1 | NullValue \<Rightarrow> None | IntValue n \<Rightarrow> Some n)"

definition verified_json :: "student_row \<Rightarrow> json" where
  "verified_json student =
     JObj [(''name'', JStr (sr_name student)),
           (''section'', JStr (case sr_section_name student of
                                 None \<Rightarrow> ''Unknown''
                               | Some sn \<Rightarrow> if sn = [] then ''Unknown'' else sn)),
           (''rfid_tag'', JStr (sr_rfid_tag student)),
           (''id_number'', opt_str (sr_id_number student)),
           (''status'', JStr ''Present'')]"

definition verify_attendance :: "db \<Rightarrow> verify_body \<Rightarrow> response \<times> db" where
  "verify_attendance d body =
     (let rfid_tags = req_rfid_tags body;
          classroom_id = classroom_param (req_classroom_id body) in
      if \<not> truthy rfid_tags \<or> \<not> isArray rfid_tags
      then (failure 400 ''Invalid RFID tags array'', d)
      else
        (case rfid_tags of
           StrArr tags \<Rightarrow>
             let d1 = d\<lparr>issued := issued d @ [SelectVerified]\<rparr> in
             if refused d1 \<noteq> None then (failure 500 ''Failed to verify attendance'', d1)
             else
               let verifiedStudents = select_verified (view d1) tags;
                   foundTags = map sr_rfid_tag verifiedStudents;
                   unrecognizedTags = [tag \<leftarrow> tags. tag \<notin> set foundTags];
                   (outcomes, d2) = log_attendance verifiedStudents classroom_id d1
               in if \<exists>e \<in> set outcomes. e \<noteq> None
                  then (failure 500 ''Failed to verify attendance'', d2)
                  else (json_ok
                          [(''success'', JBool True),
                           (''total_scans'', JNum (int (length tags))),
                           (''verified_students'', JArr (map verified_json verifiedStudents)),
                           (''unrecognized'', JArr (map JStr unrecognizedTags)),
                           (''message'', JStr (string_of_nat (length verifiedStudents)
                               @ '' students verified, ''
                               @ string_of_nat (length unrecognizedTags)
                               @ '' unrecognized tags''))], d2)
         | _ \<Rightarrow> (failure 400 ''Invalid RFID tags array'', d)))"

section \<open>POST /api/add-student\<close>

text \<open>
  The fields of the request body: absent (or null) or a string. A body with a field of
  another type is outside the model.
\<close>

record add_body =
  req_name :: "string option"
  req_rfid_tag :: "string option"
  req_section :: "string option"
  req_id_number :: "string option"

text \<open>
  Other requests run against the same store. \<open>env s\<close> is what their transactions have
  committed since the handler's previous statement, by the time the store executes the
  handler's statement \<open>s\<close> (READ COMMITTED: every statement sees what is committed when
  it starts). \<open>quiet\<close> is the handler running alone.
\<close>

type_synonym env = "stmt \<Rightarrow> db \<Rightarrow> db"

definition quiet :: env where
  "quiet s d = d"

definition arrive :: "env \<Rightarrow> stmt \<Rightarrow> db \<Rightarrow> db" where
  "arrive env s d = (let d1 = env s d in d1\<lparr>issued := issued d1 @ [s]\<rparr>)"

text \<open>
  The statements of the handler run on the client it has taken from the pool. After BEGIN
  a transaction is open on the client; an INSERT the store refuses aborts it and throws,
  which ends the \<^verbatim>\<open>try\<close> block.

  \<^verbatim>\<open>INSERT INTO sections (section_name) VALUES ($1) RETURNING section_id\<close>;
  \<^verbatim>\<open>section_id SERIAL PRIMARY KEY\<close>, \<^verbatim>\<open>section_name UNIQUE\<close>.
\<close>

definition insert_section :: "env \<Rightarrow> string \<Rightarrow> db \<Rightarrow> (sqlstate + int) \<times> db" where
  "insert_section env sec d =
     (let d1 = arrive env InsertSection d;
          sid = sections_seq d1 + 1;
          d2 = d1\<lparr>sections_seq := sid\<rparr> in
      if sid \<in> set (map section_id (sections (view d2)))
           \<or> sec \<in> set (map section_name (sections (view d2)))
      then (Inl unique_violation, abort_tx d2)
      else (Inr sid, put_rows (no_writes\<lparr>tx_sections :=
                       [\<lparr>section_id = sid, section_name = sec\<rparr>]\<rparr>) d2))"

text \<open>
  \<^verbatim>\<open>INSERT INTO persons (name, rfid_tag, role, id_number) VALUES ($1, $2, 'student', $4)
  RETURNING person_id\<close>; \<^verbatim>\<open>person_id SERIAL PRIMARY KEY\<close>, \<^verbatim>\<open>rfid_tag UNIQUE\<close>,
  \<^verbatim>\<open>id_number UNIQUE\<close>.
\<close>

definition insert_person ::
  "env \<Rightarrow> string \<Rightarrow> string \<Rightarrow> string \<Rightarrow> db \<Rightarrow> (sqlstate + int) \<times> db" where
  "insert_person env nm tag idn d =
     (let d1 = arrive env InsertPerson d;
          pid = persons_seq d1 + 1;
          d2 = d1\<lparr>persons_seq := pid\<rparr> in
      if pid \<in> set (map person_id (persons (view d2)))
           \<or> tag \<in> set (map rfid_tag (persons (view d2)))
           \<or> Some idn \<in> set (map id_number (persons (view d2)))
      then (Inl unique_violation, abort_tx d2)
      else (Inr pid, put_rows (no_writes\<lparr>tx_persons :=
                       [\<lparr>person_id = pid, name = nm, rfid_tag = tag, role = ''student'',
                         id_number = Some idn\<rparr>]\<rparr>) d2))"

text \<open>
  \<^verbatim>\<open>INSERT INTO student_sections (person_id, section_id) VALUES ($1, $2)\<close>;
  \<^verbatim>\<open>PRIMARY KEY (person_id, section_id)\<close>, both columns REFERENCES.
\<close>

definition insert_link :: "env \<Rightarrow> int \<Rightarrow> int \<Rightarrow> db \<Rightarrow> sqlstate option \<times> db" where
  "insert_link env pid sid d =
     (let d1 = arrive env InsertLink d in
      if (pid, sid) \<in> set (student_sections (view d1))
      then (Some unique_violation, abort_tx d1)
      else if pid \<notin> set (map person_id (persons (view d1)))
                \<or> sid \<notin> set (map section_id (sections (view d1)))
      then (Some foreign_key_violation, abort_tx d1)
      else (None, put_rows (no_writes\<lparr>tx_links := [(pid, sid)]\<rparr>) d1))"

text \<open>
  \<^verbatim>\<open>finally { client.release() }\<close>: the client goes back to the pool as it is. Nothing
  ends a transaction that is still open on it: the next \<^verbatim>\<open>pool.connect\<close> or
  \<^verbatim>\<open>pool.query\<close> finds the client in state \<open>conn\<close>.
\<close>

definition release :: "db \<Rightarrow> db" where
  "release d = d\<lparr>issued := issued d @ [Release]\<rparr>"

text \<open>
  The \<^verbatim>\<open>catch\<close> block: ROLLBACK (the pending rows are dropped, the transaction ends),
  then the response chosen by \<^verbatim>\<open>error.code === '23505'\<close>.
\<close>

definition on_error :: "env \<Rightarrow> sqlstate \<Rightarrow> db \<Rightarrow> response option \<times> db" where
  "on_error env code d =
     (let d1 = rollback_tx (arrive env Rollback d) in
      (Some (if code = ''23505'' then failure 400 ''Duplicate RFID tag or ID number''
             else failure 500 ''Failed to add student''),
       release d1))"

definition missing_fields :: response where
  "missing_fields = failure 400 ''Missing required fields: name, rfid_tag, section, id_number''"

text \<open>
  The statements of the \<^verbatim>\<open>try\<close> block after the two duplicate checks: get or create
  the section, insert the person, link the two. The first statement the store refuses
  ends the block with its error (the \<^verbatim>\<open>throw\<close> of the awaited query).
\<close>

definition enroll ::
  "env \<Rightarrow> string \<Rightarrow> string \<Rightarrow> string \<Rightarrow> string \<Rightarrow> db \<Rightarrow> (sqlstate + int) \<times> db" where
  "enroll env nm tag sec idn d3 =
     (let d4 = arrive env SelectSection d3;
          sectionResult = [s \<leftarrow> sections (view d4). section_name s = sec] in
      (case (case sectionResult of
               [] \<Rightarrow> insert_section env sec d4
             | s # rest \<Rightarrow> (Inr (section_id s), d4)) of
         (Inl code, d5) \<Rightarrow> (Inl code, d5)
       | (Inr sectionId, d5) \<Rightarrow>
           (case insert_person env nm tag idn d5 of
              (Inl code, d6) \<Rightarrow> (Inl code, d6)
            | (Inr personId, d6) \<Rightarrow>
                (case insert_link env personId sectionId d6 of
                   (Some code, d7) \<Rightarrow> (Inl code, d7)
                 | (None, d7) \<Rightarrow> (Inr personId, d7)))))"

text \<open>
  The handler. \<^verbatim>\<open>pool.connect()\<close> is awaited before the \<^verbatim>\<open>try\<close>: when it rejects,
  nothing catches the rejection and no response is sent (\<open>None\<close>). A connection once
  obtained is taken to last for the request. BEGIN is refused when the client carries an
  aborted transaction, and the \<^verbatim>\<open>catch\<close> block answers. The three early \<^verbatim>\<open>return\<close>s
  leave the \<^verbatim>\<open>try\<close> block through \<^verbatim>\<open>finally\<close> only: neither COMMIT nor ROLLBACK is
  sent, and the client is released with the transaction open.
\<close>

definition add_student :: "env \<Rightarrow> db \<Rightarrow> add_body \<Rightarrow> response option \<times> db" where
  "add_student env d body =
     (let d0 = d\<lparr>issued := issued d @ [Connect]\<rparr> in
      if \<not> online d0 then (None, d0)
      else
        (case begin_tx (arrive env Begin d0) of
           Inl code \<Rightarrow> on_error env code (arrive env Begin d0)
         | Inr d1 \<Rightarrow>
        (case (req_name body, req_rfid_tag body, req_section body, req_id_number body) of
           (Some nm, Some tag, Some sec, Some idn) \<Rightarrow>
             if nm = [] \<or> tag = [] \<or> sec = [] \<or> idn = []
             then (Some missing_fields, release d1)
             else
               let d2 = arrive env SelectTag d1;
                   existingTag = [p \<leftarrow> persons (view d2). rfid_tag p = tag] in
               if length existingTag > 0
               then (Some (failure 400 ''RFID tag already exists''), release d2)
               else
                 let d3 = arrive env SelectIdNumber d2;
                     existingId = [p \<leftarrow> persons (view d3). id_number p = Some idn] in
                 if length existingId > 0
                 then (Some (failure 400 ''ID number already exists''), release d3)
                 else
                   (case enroll env nm tag sec idn d3 of
                      (Inl code, d7) \<Rightarrow> on_error env code d7
                    | (Inr personId, d7) \<Rightarrow>
                        let d8 = commit_tx (arrive env Commit d7) in
                        (Some (json_ok
                           [(''success'', JBool True),
                            (''message'', JStr (''Student '' @ nm @ '' added successfully'')),
                            (''student'', JObj
                               [(''person_id'', JNum personId),
                                (''name'', JStr nm),
                                (''rfid_tag'', JStr tag),
                                (''section'', JStr sec),
                                (''id_number'', JStr idn)])]),
                         release d8))
         | _ \<Rightarrow> (Some missing_fields, release d1))))"

section \<open>The read-only endpoints, the bootstrap and the routing\<close>

text \<open>\<^verbatim>\<open>GET /api/health\<close>\<close>

definition health :: response where
  "health = json_ok [(''status'', JStr ''OK''),
                     (''message'', JStr ''NFC Attendance API is running'')]"

text \<open>
  \<^verbatim>\<open>GET /api/sections\<close>: \<^verbatim>\<open>SELECT * FROM sections ORDER BY section_name\<close>.
  Strings are ordered character by character here; the store orders them by its collation.
\<close>

definition section_json :: "section_row \<Rightarrow> json" where
  "section_json s = JObj [(''section_id'', JNum (section_id s)),
                          (''section_name'', JStr (section_name s))]"

definition get_sections :: "db \<Rightarrow> response \<times> db" where
  "get_sections d =
     (let d1 = d\<lparr>issued := issued d @ [SelectSections]\<rparr> in
      if refused d1 \<noteq> None then (failure 500 ''Failed to fetch sections'', d1)
      else (json_ok [(''success'', JBool True),
                     (''sections'', JArr (map section_json
                                            (sort_key section_name (sections (view d1)))))], d1))"

text \<open>
  \<^verbatim>\<open>GET /api/students\<close>: the students with their sections, the filter
  \<^verbatim>\<open>AND s.section_name = $1\<close> added when the query parameter is truthy.
\<close>

definition student_json :: "student_row \<Rightarrow> json" where
  "student_json r = JObj [(''person_id'', JNum (sr_person_id r)),
                          (''name'', JStr (sr_name r)),
                          (''rfid_tag'', JStr (sr_rfid_tag r)),
                          (''id_number'', opt_str (sr_id_number r)),
                          (''section_name'', opt_str (sr_section_name r))]"

definition given :: "string option \<Rightarrow> string option" where
  "given v = (case v of None \<Rightarrow> None | Some s \<Rightarrow> if s = [] then None else Some s)"

definition get_students :: "db \<Rightarrow> string option \<Rightarrow> response \<times> db" where
  "get_students d section_name_param =
     (let d1 = d\<lparr>issued := issued d @ [SelectStudents]\<rparr> in
      if refused d1 \<noteq> None then (failure 500 ''Failed to fetch students'', d1)
      else
        let rows = concat (map (student_rows (view d1))
                             [p \<leftarrow> persons (view d1). role p = ''student'']);
            kept = (case given section_name_param of
                      None \<Rightarrow> rows
                    | Some sn \<Rightarrow> [r \<leftarrow> rows. sr_section_name r = Some sn])
        in (json_ok [(''success'', JBool True),
                     (''students'', JArr (map student_json (sort_key sr_name kept)))], d1))"

text \<open>
  \<^verbatim>\<open>GET /api/attendance\<close>. The query parameters arrive as strings; the store converts
  them to the column types. That conversion and \<^verbatim>\<open>DATE(timestamp)\<close> are Postgres's,
  not this program's, and are parameters of the model: \<open>date_in\<close> and \<open>int4_in\<close>
  give \<open>None\<close> for a string the store refuses.
\<close>

record pgconv =
  date_in :: "string \<Rightarrow> nat option"
  date_of :: "nat \<Rightarrow> nat"
  int4_in :: "string \<Rightarrow> int option"

record attendance_query =
  q_date :: "string option"
  q_section_name :: "string option"
  q_classroom_id :: "string option"

definition bind_param :: "(string \<Rightarrow> 'a option) \<Rightarrow> string option \<Rightarrow> sqlstate + 'a option" where
  "bind_param conv v =
     (case given v of
        None \<Rightarrow> Inr None
      | Some s \<Rightarrow> (case conv s of
                     None \<Rightarrow> Inl invalid_text_representation
                   | Some x \<Rightarrow> Inr (Some x)))"

definition joined_room :: "db \<Rightarrow> attendance_row \<Rightarrow> string option list" where
  "joined_room d a =
     (case att_classroom_id a of
        None \<Rightarrow> [None]
      | Some c \<Rightarrow>
          let cs = [r \<leftarrow> classrooms d. classroom_id r = c] in
          if cs = [] then [None] else map (\<lambda>r. Some (room_number r)) cs)"

definition joined_attendance ::
  "db \<Rightarrow> (attendance_row \<times> person \<times> string option \<times> string option) list" where
  "joined_attendance d =
     concat (map (\<lambda>a.
       concat (map (\<lambda>p.
         concat (map (\<lambda>sn. map (\<lambda>rm. (a, p, sn, rm)) (joined_room d a))
                     (joined_sections d (person_id p))))
         [p \<leftarrow> persons d. person_id p = att_person_id a]))
       (attendance d))"

definition attendance_json :: "attendance_row \<times> person \<times> string option \<times> string option \<Rightarrow> json" where
  "attendance_json row =
     (case row of (a, p, sn, rm) \<Rightarrow>
        JObj [(''attendance_id'', JNum (attendance_id a)),
              (''timestamp'', JNum (int (timestamp a))),
              (''name'', JStr (name p)),
              (''id_number'', opt_str (id_number p)),
              (''rfid_tag'', JStr (rfid_tag p)),
              (''section_name'', opt_str sn),
              (''room_number'', opt_str rm)])"

definition get_attendance :: "pgconv \<Rightarrow> db \<Rightarrow> attendance_query \<Rightarrow> response \<times> db" where
  "get_attendance pg d q =
     (let d1 = d\<lparr>issued := issued d @ [SelectAttendance]\<rparr>;
          failed = (failure 500 ''Failed to fetch attendance records'', d1) in
      if refused d1 \<noteq> None then failed
      else
        (case bind_param (date_in pg) (q_date q) of
           Inl code \<Rightarrow> failed
         | Inr date \<Rightarrow>
             (case bind_param (int4_in pg) (q_classroom_id q) of
                Inl code \<Rightarrow> failed
              | Inr classroom \<Rightarrow>
                  let rows = [row \<leftarrow> joined_attendance (view d1).
                                case row of (a, p, sn, rm) \<Rightarrow>
                                  (case date of None \<Rightarrow> True
                                   | Some day \<Rightarrow> date_of pg (timestamp a) = day)
                                  \<and> (case given (q_section_name q) of None \<Rightarrow> True
                                     | Some s \<Rightarrow> sn = Some s)
                                  \<and> (case classroom of None \<Rightarrow> True
                                     | Some c \<Rightarrow> att_classroom_id a = Some c)];
                      records = rev (sort_key (\<lambda>row. timestamp (fst row)) rows)
                  in (json_ok [(''success'', JBool True),
                               (''records'', JArr (map attendance_json records)),
                               (''count'', JNum (int (length records)))], d1))))"

text \<open>
  \<^verbatim>\<open>POST /api/init-db\<close>: one multi-statement query, executed as a whole or not at all.
  The relations exist in the model, so \<^verbatim>\<open>CREATE TABLE IF NOT EXISTS\<close> does nothing and
  the two seeding INSERTs remain: the default room when no room has that number, the six
  default sections when there is no section.
\<close>

definition default_sections :: "string list" where
  "default_sections = [''CS-A'', ''CS-B'', ''EE-A'', ''EE-B'', ''ME-A'', ''ME-B'']"

fun seed_sections :: "int \<Rightarrow> string list \<Rightarrow> section_row list" where
  "seed_sections n [] = []"
| "seed_sections n (s # ss) = \<lparr>section_id = n + 1, section_name = s\<rparr> # seed_sections (n + 1) ss"

definition seeded :: "db \<Rightarrow> db" where
  "seeded d =
     (if sections (view d) = []
      then (put_rows (no_writes\<lparr>tx_sections := seed_sections (sections_seq d) default_sections\<rparr>) d)
             \<lparr>sections_seq := sections_seq d + int (length default_sections)\<rparr>
      else d)"

definition init_db :: "db \<Rightarrow> response \<times> db" where
  "init_db d =
     (let d1 = d\<lparr>issued := issued d @ [InitDb]\<rparr>;
          failed = failure 500 ''Failed to initialize database'';
          finished = json_ok [(''success'', JBool True),
                          (''message'', JStr ''Database initialized successfully'')] in
      if refused d1 \<noteq> None then (failed, d1)
      else if ''Default Room'' \<in> set (map room_number (classrooms (view d1)))
      then (finished, seeded d1)
      else
        let cid = classrooms_seq d1 + 1;
            d2 = d1\<lparr>classrooms_seq := cid\<rparr> in
        if cid \<in> set (map classroom_id (classrooms (view d2))) then (failed, abort_tx d2)
        else (finished, seeded (put_rows (no_writes\<lparr>tx_classrooms :=
                       [\<lparr>classroom_id = cid, room_number = ''Default Room''\<rparr>]\<rparr>) d2)))"

text \<open>
  What reaches the application: one of the seven routes, a request whose JSON body
  \<^verbatim>\<open>express.json()\<close> cannot parse (it goes to the error-handling middleware), or any other
  method and path (the \<^verbatim>\<open>'*'\<close> handler).
\<close>

datatype request =
  GetHealth
| GetSections
| PostVerifyAttendance verify_body
| PostAddStudent add_body
| GetAttendance attendance_query
| GetStudents "string option"
| PostInitDb
| MalformedBody
| OtherRoute

definition handle :: "pgconv \<Rightarrow> env \<Rightarrow> db \<Rightarrow> request \<Rightarrow> response option \<times> db" where
  "handle pg env d req =
     (case req of
        GetHealth \<Rightarrow> (Some health, d)
      | GetSections \<Rightarrow> (case get_sections d of (r, d1) \<Rightarrow> (Some r, d1))
      | PostVerifyAttendance body \<Rightarrow> (case verify_attendance d body of (r, d1) \<Rightarrow> (Some r, d1))
      | PostAddStudent body \<Rightarrow> add_student env d body
      | GetAttendance q \<Rightarrow> (case get_attendance pg d q of (r, d1) \<Rightarrow> (Some r, d1))
      | GetStudents sn \<Rightarrow> (case get_students d sn of (r, d1) \<Rightarrow> (Some r, d1))
      | PostInitDb \<Rightarrow> (case init_db d of (r, d1) \<Rightarrow> (Some r, d1))
      | MalformedBody \<Rightarrow> (Some (failure 500 ''Internal server error''), d)
      | OtherRoute \<Rightarrow> (Some (failure 404 ''Endpoint not found''), d))"

section \<open>Notions used in the statements\<close>

text \<open>A member of a JSON object, and the length of a JSON array found under a key.\<close>

definition field :: "string \<Rightarrow> json \<Rightarrow> json option" where
  "field k j = (case j of JObj kv \<Rightarrow> map_of kv k | _ \<Rightarrow> None)"

definition json_length :: "json option \<Rightarrow> nat" where
  "json_length v = (case v of Some (JArr xs) \<Rightarrow> length xs | _ \<Rightarrow> 0)"

text \<open>
  The key constraints of the schema that the verification query depends on: the store
  keeps them, the list model states them. \<open>single_section\<close> says that no person is
  linked to two sections, which the schema does not forbid.
\<close>

definition unique_keys :: "db \<Rightarrow> bool" where
  "unique_keys d \<longleftrightarrow>
     distinct (map person_id (persons d)) \<and> distinct (map rfid_tag (persons d))
     \<and> distinct (map section_id (sections d)) \<and> distinct (map section_name (sections d))
     \<and> distinct (student_sections d)"

definition single_section :: "db \<Rightarrow> bool" where
  "single_section d \<longleftrightarrow> (\<forall>p \<in> set (persons d). length [l \<leftarrow> student_sections d. fst l = person_id p] \<le> 1)"

text \<open>
  A small store: one student, Alice, enrolled in CS-A; two sections; the default room.
\<close>

definition campus :: db where
  "campus =
     \<lparr>persons = [\<lparr>person_id = 1, name = ''Alice'', rfid_tag = ''RFID1'', role = ''student'',
                   id_number = Some ''S001''\<rparr>],
      sections = [\<lparr>section_id = 1, section_name = ''CS-A''\<rparr>,
                  \<lparr>section_id = 2, section_name = ''CS-B''\<rparr>],
      student_sections = [(1, 1)],
      classrooms = [\<lparr>classroom_id = 1, room_number = ''Default Room''\<rparr>],
      attendance = [],
      persons_seq = 1, sections_seq = 2, classrooms_seq = 1, attendance_seq = 0,
      clock = 0, online = True, issued = [], conn = Idle\<rparr>"

text \<open>The same store with Alice linked to a second section, CS-B.\<close>

definition enrolled_twice :: db where
  "enrolled_twice = campus\<lparr>student_sections := [(1, 1), (1, 2)]\<rparr>"

text \<open>
  An enrollment request is well formed when its four fields are non-empty strings.
  \<open>same_rows\<close> compares the five tables of two stores; \<open>succeeded\<close> tells the
  response of a completed enrollment from every other outcome.
\<close>

definition present :: "string option \<Rightarrow> bool" where
  "present v = (case v of None \<Rightarrow> False | Some s \<Rightarrow> s \<noteq> [])"

definition well_formed :: "add_body \<Rightarrow> bool" where
  "well_formed body \<longleftrightarrow>
     present (req_name body) \<and> present (req_rfid_tag body)
     \<and> present (req_section body) \<and> present (req_id_number body)"

definition same_rows :: "db \<Rightarrow> db \<Rightarrow> bool" where
  "same_rows d d' \<longleftrightarrow>
     persons d' = persons d \<and> sections d' = sections d
     \<and> student_sections d' = student_sections d
     \<and> classrooms d' = classrooms d \<and> attendance d' = attendance d"

definition succeeded :: "response option \<Rightarrow> bool" where
  "succeeded ro = (case ro of None \<Rightarrow> False | Some r \<Rightarrow> status r = 200)"

text \<open>Two enrollment requests for the sample store.\<close>

definition bob :: add_body where
  "bob = \<lparr>req_name = Some ''Bob'', req_rfid_tag = Some ''RFID2'',
          req_section = Some ''CS-A'', req_id_number = Some ''S002''\<rparr>"

definition carol :: add_body where
  "carol = \<lparr>req_name = Some ''Carol'', req_rfid_tag = Some ''RFID3'',
            req_section = Some ''cs-a'', req_id_number = Some ''S003''\<rparr>"

text \<open>
  Concurrent requests for the sample store: \<open>rival tag idn\<close> is an enrollment of Eve
  with the given tag and identifier that commits just before the handler's INSERT into
  \<^verbatim>\<open>persons\<close>; \<open>rival_section sec\<close> commits a section of that name just before the
  handler's INSERT into \<^verbatim>\<open>sections\<close>.
\<close>

definition rival :: "string \<Rightarrow> string \<Rightarrow> env" where
  "rival tag idn s d =
     (if s = InsertPerson
      then d\<lparr>persons := persons d @
                [\<lparr>person_id = persons_seq d + 1, name = ''Eve'', rfid_tag = tag,
                  role = ''student'', id_number = Some idn\<rparr>],
              persons_seq := persons_seq d + 1\<rparr>
      else d)"

definition rival_section :: "string \<Rightarrow> env" where
  "rival_section sec s d =
     (if s = InsertSection
      then d\<lparr>sections := sections d @ [\<lparr>section_id = sections_seq d + 1, section_name = sec\<rparr>],
              sections_seq := sections_seq d + 1\<rparr>
      else d)"

text \<open>
  Three more requests for the sample store: a scan of Alice's tag, an enrollment with
  Alice's tag, and an enrollment without a name.
\<close>

definition scan :: verify_body where
  "scan = \<lparr>req_rfid_tags = StrArr [''RFID1''], req_classroom_id = Omitted\<rparr>"

definition duplicate :: add_body where
  "duplicate = bob\<lparr>req_rfid_tag := Some ''RFID1''\<rparr>"

definition nameless :: add_body where
  "nameless = bob\<lparr>req_name := None\<rparr>"

text \<open>
  A payload is flagged when it has a boolean \<^verbatim>\<open>success\<close> member that tells status 200
  from the other statuses, and a string \<^verbatim>\<open>error\<close> member when the flag is false.
\<close>

definition flagged :: "response \<Rightarrow> bool" where
  "flagged r =
     (case map_of (payload r) ''success'' of
        Some (JBool b) \<Rightarrow>
          (b \<longleftrightarrow> status r = 200)
          \<and> (b \<or> (case map_of (payload r) ''error'' of Some (JStr msg) \<Rightarrow> True | _ \<Rightarrow> False))
      | _ \<Rightarrow> False)"

text \<open>A store conversion that refuses every date and every integer, for the examples.\<close>

definition plain_pg :: pgconv where
  "plain_pg = \<lparr>date_in = (\<lambda>s. None), date_of = (\<lambda>t. t div 86400), int4_in = (\<lambda>s. None)\<rparr>"

section \<open>Properties of the verification\<close>

lemma store_no_writes [simp]: "store no_writes d = d"
  by (simp add: store_def no_writes_def)

lemma view_idle: "conn d = Idle \<Longrightarrow> view d = d"
  by (simp add: view_def)

lemma view_issued [simp]: "view (d\<lparr>issued := x\<rparr>) = (view d)\<lparr>issued := x\<rparr>"
  by (simp add: view_def store_def split: conn_state.splits)

lemma joined_sections_issued [simp]:
  "joined_sections (d\<lparr>issued := x\<rparr>) pid = joined_sections d pid"
  by (simp add: joined_sections_def Let_def)

lemma student_rows_issued [simp]:
  "student_rows (d\<lparr>issued := x\<rparr>) = student_rows d"
  by (rule ext) (simp add: student_rows_def)

lemma select_verified_issued [simp]:
  "select_verified (d\<lparr>issued := x\<rparr>) tags = select_verified d tags"
  by (simp add: select_verified_def)

lemma joined_sections_nonempty: "joined_sections d pid \<noteq> []"
proof (cases "[l \<leftarrow> student_sections d. fst l = pid]")
  case Nil
  then show ?thesis by (simp add: joined_sections_def)
next
  case (Cons l ls)
  then show ?thesis by (simp add: joined_sections_def Let_def)
qed

lemma student_rows_tags: "set (map sr_rfid_tag (student_rows d p)) = {rfid_tag p}"
  using joined_sections_nonempty [of d "person_id p"]
  by (cases "joined_sections d (person_id p)") (auto simp: student_rows_def)

lemma found_tags:
  "set (map sr_rfid_tag (select_verified d tags)) =
     {t \<in> set tags. \<exists>p \<in> set (persons d). role p = ''student'' \<and> rfid_tag p = t}"
proof -
  have "set (map sr_rfid_tag (select_verified d tags)) =
        (\<Union>p \<in> {p \<in> set (persons d). rfid_tag p \<in> set tags \<and> role p = ''student''}.
           set (map sr_rfid_tag (student_rows d p)))"
    by (auto simp: select_verified_def)
  also have "\<dots> = {t \<in> set tags. \<exists>p \<in> set (persons d). role p = ''student'' \<and> rfid_tag p = t}"
    by (auto simp: student_rows_tags simp del: set_map)
  finally show ?thesis .
qed

lemma verify_success_payload:
  assumes "req_rfid_tags body = StrArr tags"
    and "verify_attendance d body = (r, d')"
    and "status r = 200"
  shows "payload r =
     [(''success'', JBool True),
      (''total_scans'', JNum (int (length tags))),
      (''verified_students'', JArr (map verified_json (select_verified (view d) tags))),
      (''unrecognized'', JArr (map JStr
          [tag \<leftarrow> tags. tag \<notin> set (map sr_rfid_tag (select_verified (view d) tags))])),
      (''message'', JStr (string_of_nat (length (select_verified (view d) tags))
          @ '' students verified, ''
          @ string_of_nat (length [tag \<leftarrow> tags. tag \<notin> set (map sr_rfid_tag (select_verified (view d) tags))])
          @ '' unrecognized tags''))]"
  using assms
  by (auto simp: verify_attendance_def Let_def failure_def json_status_def json_ok_def
      split: prod.splits if_splits)

lemma filter_key_le_one:
  "distinct (map f xs) \<Longrightarrow> length [x \<leftarrow> xs. f x = k] \<le> 1"
proof (induction xs)
  case Nil
  then show ?case by simp
next
  case (Cons a xs)
  show ?case
  proof (cases "f a = k")
    case True
    with Cons.prems have "k \<notin> f ` set xs" by simp
    then have "\<forall>x \<in> set xs. f x \<noteq> k" by blast
    then have "[x \<leftarrow> xs. f x = k] = []" by (simp add: filter_empty_conv)
    with True show ?thesis by simp
  next
    case False
    with Cons show ?thesis by simp
  qed
qed

lemma joined_sections_single:
  assumes "distinct (map section_id (sections d))"
    and "length [l \<leftarrow> student_sections d. fst l = pid] \<le> 1"
  shows "length (joined_sections d pid) = 1"
proof (cases "[l \<leftarrow> student_sections d. fst l = pid]")
  case Nil
  then show ?thesis by (simp add: joined_sections_def)
next
  case (Cons l ls)
  with assms(2) have ls: "ls = []" by simp
  have "length [s \<leftarrow> sections d. section_id s = snd l] \<le> 1"
    using assms(1) by (rule filter_key_le_one)
  then show ?thesis
    using Cons ls
    by (cases "[s \<leftarrow> sections d. section_id s = snd l]") (simp_all add: joined_sections_def Let_def)
qed

lemma length_concat_singletons:
  "(\<forall>x \<in> set xs. length (f x) = 1) \<Longrightarrow> length (concat (map f xs)) = length xs"
  by (induction xs) auto

lemma select_verified_one_row_each:
  assumes "unique_keys d" and "single_section d"
  shows "length (select_verified d tags) =
         length [p \<leftarrow> persons d. rfid_tag p \<in> set tags \<and> role p = ''student'']"
  unfolding select_verified_def
proof (rule length_concat_singletons, rule ballI)
  fix p assume "p \<in> set [p \<leftarrow> persons d. rfid_tag p \<in> set tags \<and> role p = ''student'']"
  then have "p \<in> set (persons d)" by simp
  with assms show "length (student_rows d p) = 1"
    by (simp add: student_rows_def joined_sections_single unique_keys_def single_section_def)
qed

lemma found_tags_persons:
  "set (map sr_rfid_tag (select_verified d tags)) =
   set (map rfid_tag [p \<leftarrow> persons d. rfid_tag p \<in> set tags \<and> role p = ''student''])"
  unfolding found_tags by auto

lemma matched_rows_count:
  assumes "unique_keys d" and "single_section d"
  shows "length (select_verified d tags) = card (set (map sr_rfid_tag (select_verified d tags)))"
proof -
  let ?P = "[p \<leftarrow> persons d. rfid_tag p \<in> set tags \<and> role p = ''student'']"
  have "distinct (map rfid_tag (persons d))"
    using assms(1) by (simp add: unique_keys_def)
  then have "distinct (map rfid_tag ?P)"
    by (rule distinct_map_filter)
  then have "card (set (map rfid_tag ?P)) = length (map rfid_tag ?P)"
    by (rule distinct_card)
  then show ?thesis
    by (simp only: select_verified_one_row_each [OF assms] found_tags_persons length_map)
qed

lemma partition_count:
  assumes "unique_keys d" and "single_section d"
  shows "length (select_verified d tags)
         + length [tag \<leftarrow> tags. tag \<notin> set (map sr_rfid_tag (select_verified d tags))]
         = length tags
     \<longleftrightarrow> distinct [t \<leftarrow> tags. \<exists>p \<in> set (persons d). role p = ''student'' \<and> rfid_tag p = t]"
proof -
  let ?found = "set (map sr_rfid_tag (select_verified d tags))"
  let ?T = "[t \<leftarrow> tags. t \<in> ?found]"
  have same: "[t \<leftarrow> tags. \<exists>p \<in> set (persons d). role p = ''student'' \<and> rfid_tag p = t] = ?T"
    by (rule filter_cong) (auto simp: found_tags simp del: set_map)
  have sub: "set ?T = ?found"
    by (auto simp: found_tags simp del: set_map)
  have total: "length ?T + length [t \<leftarrow> tags. \<not> t \<in> ?found] = length tags"
    by (rule sum_length_filter_compl)
  have rows: "length (select_verified d tags) = card (set ?T)"
    unfolding sub by (rule matched_rows_count [OF assms])
  have "card (set ?T) = length ?T \<longleftrightarrow> distinct ?T"
    using card_distinct distinct_card by blast
  with total rows show ?thesis
    unfolding same by linarith
qed

lemmas verify_eval =
  verify_attendance_def Let_def select_verified_def student_rows_def joined_sections_def
  insert_attendance_def json_ok_def classroom_param_def failure_def json_status_def
  refused_def view_def put_rows_def store_def abort_tx_def no_writes_def

lemma verified_json_tag [simp]: "field ''rfid_tag'' (verified_json r) = Some (JStr (sr_rfid_tag r))"
  by (simp add: field_def verified_json_def)

text \<open>
  C7. When a verification of a list of token strings succeeds, the \<^verbatim>\<open>unrecognized\<close>
  list of the response is exactly the input tokens that are the tag of no person with
  role student among the persons the SELECT reads, in the order of the input and with
  its repetitions. (\<open>view d\<close> is \<open>d\<close> when no transaction is open on the client.)
\<close>

theorem unrecognized_tokens:
  assumes "req_rfid_tags body = StrArr tags"
    and "verify_attendance d body = (r, d')"
    and "status r = 200"
  shows "map_of (payload r) ''unrecognized'' =
     Some (JArr (map JStr
       [t \<leftarrow> tags. \<not> (\<exists>p \<in> set (persons (view d)). role p = ''student'' \<and> rfid_tag p = t)]))"
proof -
  have "[tag \<leftarrow> tags. tag \<notin> set (map sr_rfid_tag (select_verified (view d) tags))] =
        [t \<leftarrow> tags. \<not> (\<exists>p \<in> set (persons (view d)). role p = ''student'' \<and> rfid_tag p = t)]"
    by (rule filter_cong) (auto simp: found_tags simp del: set_map)
  then show ?thesis
    using verify_success_payload [OF assms] by simp
qed

theorem unrecognized_tokens_witness:
  "status (fst (verify_attendance campus
       \<lparr>req_rfid_tags = StrArr [''RFID9'', ''RFID1'', ''RFID9''], req_classroom_id = Omitted\<rparr>)) = 200
   \<and> map_of (payload (fst (verify_attendance campus
       \<lparr>req_rfid_tags = StrArr [''RFID9'', ''RFID1'', ''RFID9''], req_classroom_id = Omitted\<rparr>)))
       ''unrecognized'' = Some (JArr [JStr ''RFID9'', JStr ''RFID9''])"
proof -
  let ?body = "\<lparr>req_rfid_tags = StrArr [''RFID9'', ''RFID1'', ''RFID9''], req_classroom_id = Omitted\<rparr>"
  have tags: "req_rfid_tags ?body = StrArr [''RFID9'', ''RFID1'', ''RFID9'']"
    by simp
  have run: "verify_attendance campus ?body =
             (fst (verify_attendance campus ?body), snd (verify_attendance campus ?body))"
    by simp
  have ok: "status (fst (verify_attendance campus ?body)) = 200"
    by (simp add: verify_eval campus_def)
  from unrecognized_tokens [OF tags run ok] ok show ?thesis
    by (simp add: campus_def view_def)
qed

text \<open>
  C1, as the claim states it: the matched and the unmatched list together are as long as
  the batch. A tag scanned twice is matched once (the lookup is \<^verbatim>\<open>= ANY($1)\<close>), so
  the two lengths add up to 1 for a batch of 2.
\<close>

theorem partition_counterexample:
  "map_of (payload (fst (verify_attendance campus
       \<lparr>req_rfid_tags = StrArr [''RFID1'', ''RFID1''], req_classroom_id = Omitted\<rparr>)))
     ''total_scans'' = Some (JNum 2)
   \<and> json_length (map_of (payload (fst (verify_attendance campus
       \<lparr>req_rfid_tags = StrArr [''RFID1'', ''RFID1''], req_classroom_id = Omitted\<rparr>))) ''verified_students'')
     + json_length (map_of (payload (fst (verify_attendance campus
       \<lparr>req_rfid_tags = StrArr [''RFID1'', ''RFID1''], req_classroom_id = Omitted\<rparr>))) ''unrecognized'')
     = 1"
  by (simp add: verify_eval campus_def json_length_def)

text \<open>
  C1, amended. When a verification of a list of token strings succeeds, \<^verbatim>\<open>total_scans\<close>
  is the number of tokens, and every token is either in \<^verbatim>\<open>unrecognized\<close> or the tag
  of a matched student and never both. On a store that keeps its keys unique and links no
  student to two sections, the two lists together are as long as the batch exactly when
  no token that is a student's tag is repeated in the batch; unmatched tokens may repeat.
\<close>

theorem verification_partition:
  assumes "req_rfid_tags body = StrArr tags"
    and "verify_attendance d body = (r, d')"
    and "status r = 200"
  shows "\<exists>matched unmatched.
           map_of (payload r) ''total_scans'' = Some (JNum (int (length tags)))
         \<and> map_of (payload r) ''verified_students'' = Some (JArr matched)
         \<and> map_of (payload r) ''unrecognized'' = Some (JArr unmatched)
         \<and> (\<forall>t \<in> set tags.
               (JStr t \<in> set unmatched) \<noteq> (Some (JStr t) \<in> set (map (field ''rfid_tag'') matched)))
         \<and> (unique_keys (view d) \<and> single_section (view d) \<longrightarrow>
               (length matched + length unmatched = length tags
                \<longleftrightarrow> distinct [t \<leftarrow> tags. \<exists>p \<in> set (persons (view d)).
                                         role p = ''student'' \<and> rfid_tag p = t]))"
proof -
  let ?vs = "select_verified (view d) tags"
  let ?us = "[tag \<leftarrow> tags. tag \<notin> set (map sr_rfid_tag ?vs)]"
  have p: "map_of (payload r) ''total_scans'' = Some (JNum (int (length tags)))"
      "map_of (payload r) ''verified_students'' = Some (JArr (map verified_json ?vs))"
      "map_of (payload r) ''unrecognized'' = Some (JArr (map JStr ?us))"
    using verify_success_payload [OF assms] by simp_all
  have m: "map (field ''rfid_tag'') (map verified_json ?vs) = map (\<lambda>r. Some (JStr (sr_rfid_tag r))) ?vs"
    by simp
  have x: "\<forall>t \<in> set tags. (JStr t \<in> set (map JStr ?us))
             \<noteq> (Some (JStr t) \<in> set (map (field ''rfid_tag'') (map verified_json ?vs)))"
    unfolding m by auto
  have c: "unique_keys (view d) \<and> single_section (view d) \<longrightarrow>
             (length (map verified_json ?vs) + length (map JStr ?us) = length tags
              \<longleftrightarrow> distinct [t \<leftarrow> tags. \<exists>p \<in> set (persons (view d)).
                                         role p = ''student'' \<and> rfid_tag p = t])"
    using partition_count [of "view d" tags] by simp
  from p x c show ?thesis by blast
qed

theorem verification_partition_witness:
  "unique_keys (view campus) \<and> single_section (view campus)
   \<and> distinct [t \<leftarrow> [''RFID9'', ''RFID1'', ''RFID9''].
         \<exists>p \<in> set (persons (view campus)). role p = ''student'' \<and> rfid_tag p = t]
   \<and> status (fst (verify_attendance campus
        \<lparr>req_rfid_tags = StrArr [''RFID9'', ''RFID1'', ''RFID9''], req_classroom_id = Omitted\<rparr>)) = 200
   \<and> json_length (map_of (payload (fst (verify_attendance campus
        \<lparr>req_rfid_tags = StrArr [''RFID9'', ''RFID1'', ''RFID9''], req_classroom_id = Omitted\<rparr>))) ''verified_students'')
     + json_length (map_of (payload (fst (verify_attendance campus
        \<lparr>req_rfid_tags = StrArr [''RFID9'', ''RFID1'', ''RFID9''], req_classroom_id = Omitted\<rparr>))) ''unrecognized'')
     = 3"
proof -
  let ?tags = "[''RFID9'', ''RFID1'', ''RFID9'']"
  let ?body = "\<lparr>req_rfid_tags = StrArr ?tags, req_classroom_id = Omitted\<rparr>"
  let ?r = "fst (verify_attendance campus ?body)"
  have tags: "req_rfid_tags ?body = StrArr ?tags"
    by simp
  have run: "verify_attendance campus ?body = (?r, snd (verify_attendance campus ?body))"
    by simp
  have ok: "status ?r = 200"
    by (simp add: verify_eval campus_def)
  have keys: "unique_keys (view campus) \<and> single_section (view campus)"
    by (simp add: unique_keys_def single_section_def campus_def view_def)
  have once: "distinct [t \<leftarrow> ?tags.
         \<exists>p \<in> set (persons (view campus)). role p = ''student'' \<and> rfid_tag p = t]"
    by (simp add: campus_def view_def)
  from verification_partition [OF tags run ok] keys once
  obtain matched unmatched where
    "map_of (payload ?r) ''verified_students'' = Some (JArr matched)"
    "map_of (payload ?r) ''unrecognized'' = Some (JArr unmatched)"
    "length matched + length unmatched = length ?tags"
    by blast
  then have "json_length (map_of (payload ?r) ''verified_students'')
           + json_length (map_of (payload ?r) ''unrecognized'') = 3"
    by (simp add: json_length_def)
  with keys once ok show ?thesis by blast
qed

lemma insert_attendance_rows:
  assumes "insert_attendance pid cid d = (e, d')" and "conn d = Idle"
  shows "conn d' = Idle \<and> attendance d' = attendance d @
           (if e = None then [\<lparr>attendance_id = attendance_seq d + 1, att_person_id = pid,
                                att_classroom_id = cid, timestamp = clock d\<rparr>] else [])"
  using assms
  by (auto simp: insert_attendance_def Let_def refused_def view_def put_rows_def store_def
      abort_tx_def no_writes_def split: if_splits)

lemma log_attendance_rows:
  "log_attendance rs cid d = (es, d') \<Longrightarrow> conn d = Idle \<Longrightarrow>
     conn d' = Idle \<and>
     (\<exists>news. attendance d' = attendance d @ news
       \<and> (\<forall>a \<in> set news. att_classroom_id a = cid)
       \<and> ((\<forall>e \<in> set es. e = None) \<longrightarrow> map att_person_id news = map sr_person_id rs))"
proof (induction rs arbitrary: d es d')
  case Nil
  then show ?case by simp
next
  case (Cons r rs)
  obtain e d1 where one: "insert_attendance (sr_person_id r) cid d = (e, d1)"
    by (cases "insert_attendance (sr_person_id r) cid d")
  obtain es1 d2 where more: "log_attendance rs cid d1 = (es1, d2)"
    by (cases "log_attendance rs cid d1")
  from Cons.prems one more have res: "es = e # es1" "d' = d2"
    by simp_all
  let ?first = "if e = None then [\<lparr>attendance_id = attendance_seq d + 1,
       att_person_id = sr_person_id r, att_classroom_id = cid, timestamp = clock d\<rparr>] else []"
  from insert_attendance_rows [OF one Cons.prems(2)]
  have f: "conn d1 = Idle" "attendance d1 = attendance d @ ?first"
    by simp_all
  from Cons.IH [OF more f(1)] obtain news where
    n: "conn d2 = Idle" "attendance d2 = attendance d1 @ news"
       "\<forall>a \<in> set news. att_classroom_id a = cid"
       "(\<forall>e \<in> set es1. e = None) \<longrightarrow> map att_person_id news = map sr_person_id rs"
    by blast
  have "attendance d' = attendance d @ (?first @ news)"
    using n(2) f res by simp
  moreover have "\<forall>a \<in> set (?first @ news). att_classroom_id a = cid"
    using n(3) by auto
  moreover have "(\<forall>e \<in> set es. e = None) \<longrightarrow>
       map att_person_id (?first @ news) = map sr_person_id (r # rs)"
    using n(4) res by simp
  ultimately show ?case using n(1) res by blast
qed

lemma verify_attendance_rows:
  assumes "verify_attendance d body = (r, d')" and "conn d = Idle"
  shows "conn d' = Idle \<and> (\<exists>news. attendance d' = attendance d @ news
     \<and> (\<forall>a \<in> set news. att_classroom_id a = classroom_param (req_classroom_id body))
     \<and> (\<forall>tags. status r = 200 \<and> req_rfid_tags body = StrArr tags
           \<longrightarrow> map att_person_id news = map sr_person_id (select_verified d tags)))"
proof (cases "req_rfid_tags body")
  case (StrArr tags)
  show ?thesis
  proof (cases "online d")
    case False
    with StrArr assms show ?thesis
      by (auto simp: verify_attendance_def Let_def failure_def json_status_def refused_def)
  next
    case True
    let ?d1 = "d\<lparr>issued := issued d @ [SelectVerified]\<rparr>"
    have idle: "conn ?d1 = Idle"
      using assms(2) by simp
    have v: "select_verified (view ?d1) tags = select_verified d tags"
      using assms(2) by (simp add: view_idle)
    obtain es d2 where l: "log_attendance (select_verified d tags)
        (classroom_param (req_classroom_id body)) ?d1 = (es, d2)"
      by (cases "log_attendance (select_verified d tags) (classroom_param (req_classroom_id body)) ?d1")
    from log_attendance_rows [OF l idle] obtain news where
      n: "conn d2 = Idle" "attendance d2 = attendance d @ news"
         "\<forall>a \<in> set news. att_classroom_id a = classroom_param (req_classroom_id body)"
         "(\<forall>e \<in> set es. e = None) \<longrightarrow> map att_person_id news = map sr_person_id (select_verified d tags)"
      by auto
    have ref: "refused ?d1 = None"
      using True assms(2) by (simp add: refused_def)
    from assms(1) StrArr ref l v have d': "d' = d2"
      by (auto simp: verify_attendance_def Let_def split: if_splits)
    from assms(1) StrArr ref l v have "status r = 200 \<longrightarrow> (\<forall>e \<in> set es. e = None)"
      by (auto simp: verify_attendance_def Let_def failure_def json_status_def split: if_splits)
    with n d' StrArr show ?thesis by auto
  qed
qed (use assms in \<open>auto simp: verify_attendance_def Let_def\<close>)

lemma insert_attendance_visible:
  assumes "insert_attendance pid cid d = (e, d')"
  shows "set (attendance (view d')) \<subseteq>
           set (attendance (view d)) \<union> {a. att_classroom_id a = cid}"
  using assms
  by (auto simp: insert_attendance_def Let_def refused_def view_def put_rows_def store_def
      abort_tx_def no_writes_def join_writes_def split: if_splits conn_state.splits option.splits)

lemma log_attendance_visible:
  "log_attendance rs cid d = (es, d') \<Longrightarrow>
     set (attendance (view d')) \<subseteq> set (attendance (view d)) \<union> {a. att_classroom_id a = cid}"
proof (induction rs arbitrary: d es d')
  case Nil
  then show ?case by simp
next
  case (Cons r rs)
  obtain e d1 where one: "insert_attendance (sr_person_id r) cid d = (e, d1)"
    by (cases "insert_attendance (sr_person_id r) cid d")
  obtain es1 d2 where more: "log_attendance rs cid d1 = (es1, d2)"
    by (cases "log_attendance rs cid d1")
  from Cons.prems one more have "d' = d2"
    by simp
  with insert_attendance_visible [OF one] Cons.IH [OF more] show ?case
    by blast
qed

lemma verify_attendance_visible:
  assumes "verify_attendance d body = (r, d')"
  shows "set (attendance (view d')) \<subseteq> set (attendance (view d))
           \<union> {a. att_classroom_id a = classroom_param (req_classroom_id body)}"
proof (cases "req_rfid_tags body")
  case (StrArr tags)
  let ?d1 = "d\<lparr>issued := issued d @ [SelectVerified]\<rparr>"
  obtain es d2 where l: "log_attendance (select_verified (view d) tags)
      (classroom_param (req_classroom_id body)) ?d1 = (es, d2)"
    by (cases "log_attendance (select_verified (view d) tags) (classroom_param (req_classroom_id body)) ?d1")
  from log_attendance_visible [OF l]
  have sub: "set (attendance (view d2)) \<subseteq> set (attendance (view d))
           \<union> {a. att_classroom_id a = classroom_param (req_classroom_id body)}"
    by simp
  from assms StrArr l have "d' = ?d1 \<or> d' = d2"
    by (auto simp: verify_attendance_def Let_def split: if_splits)
  with sub show ?thesis by auto
qed (use assms in \<open>auto simp: verify_attendance_def Let_def\<close>)

lemma insert_attendance_accepted:
  assumes "insert_attendance pid cid d = (None, d')"
  shows "attendance (view d') = attendance (view d) @
           [\<lparr>attendance_id = attendance_seq d + 1, att_person_id = pid,
             att_classroom_id = cid, timestamp = clock d\<rparr>]"
  using assms
  by (auto simp: insert_attendance_def Let_def refused_def view_def put_rows_def store_def
      abort_tx_def no_writes_def join_writes_def split: if_splits conn_state.splits option.splits)

lemma log_attendance_accepted:
  "log_attendance rs cid d = (es, d') \<Longrightarrow> \<forall>e \<in> set es. e = None \<Longrightarrow>
     \<exists>news. attendance (view d') = attendance (view d) @ news
       \<and> (\<forall>a \<in> set news. att_classroom_id a = cid)
       \<and> map att_person_id news = map sr_person_id rs"
proof (induction rs arbitrary: d es d')
  case Nil
  then show ?case by simp
next
  case (Cons r rs)
  obtain e d1 where one: "insert_attendance (sr_person_id r) cid d = (e, d1)"
    by (cases "insert_attendance (sr_person_id r) cid d")
  obtain es1 d2 where more: "log_attendance rs cid d1 = (es1, d2)"
    by (cases "log_attendance rs cid d1")
  from Cons.prems(1) one more have res: "es = e # es1" "d' = d2"
    by simp_all
  with Cons.prems(2) have none: "e = None" "\<forall>e \<in> set es1. e = None"
    by simp_all
  let ?row = "\<lparr>attendance_id = attendance_seq d + 1, att_person_id = sr_person_id r,
                att_classroom_id = cid, timestamp = clock d\<rparr>"
  from insert_attendance_accepted [of "sr_person_id r" cid d d1] one none(1)
  have f: "attendance (view d1) = attendance (view d) @ [?row]"
    by simp
  from Cons.IH [OF more none(2)] obtain news where
    n: "attendance (view d2) = attendance (view d1) @ news"
       "\<forall>a \<in> set news. att_classroom_id a = cid"
       "map att_person_id news = map sr_person_id rs"
    by blast
  have "attendance (view d') = attendance (view d) @ (?row # news)"
    using n(1) f res by simp
  moreover have "\<forall>a \<in> set (?row # news). att_classroom_id a = cid"
    using n(2) by simp
  moreover have "map att_person_id (?row # news) = map sr_person_id (r # rs)"
    using n(3) by simp
  ultimately show ?case by blast
qed

lemma verify_attendance_accepted:
  assumes "verify_attendance d body = (r, d')" and "status r = 200"
    and "req_rfid_tags body = StrArr tags"
  shows "\<exists>news. attendance (view d') = attendance (view d) @ news
     \<and> (\<forall>a \<in> set news. att_classroom_id a = classroom_param (req_classroom_id body))
     \<and> map att_person_id news = map sr_person_id (select_verified (view d) tags)"
proof -
  let ?d1 = "d\<lparr>issued := issued d @ [SelectVerified]\<rparr>"
  obtain es d2 where l: "log_attendance (select_verified (view d) tags)
      (classroom_param (req_classroom_id body)) ?d1 = (es, d2)"
    by (cases "log_attendance (select_verified (view d) tags) (classroom_param (req_classroom_id body)) ?d1")
  from assms l have d': "d' = d2" and all: "\<forall>e \<in> set es. e = None"
    by (auto simp: verify_attendance_def Let_def failure_def json_status_def split: if_splits)
  from log_attendance_accepted [OF l all] d' show ?thesis
    by simp
qed

lemma string_of_nat_0: "string_of_nat 0 = ''0''"
  by code_simp

lemma concat_singletons:
  "(\<forall>x \<in> set xs. length (f x) = 1) \<Longrightarrow> concat (map f xs) = map (\<lambda>x. hd (f x)) xs"
proof (induction xs)
  case Nil
  then show ?case by simp
next
  case (Cons x xs)
  then have "length (f x) = 1" by simp
  then obtain y where "f x = [y]"
    by (cases "f x") auto
  with Cons show ?case by simp
qed

lemma one_event_per_student:
  assumes "req_rfid_tags body = StrArr tags"
    and "verify_attendance d body = (r, d')"
    and "status r = 200"
    and "conn d = Idle"
    and "unique_keys d" and "single_section d"
  shows "\<exists>news. attendance d' = attendance d @ news \<and> distinct (map att_person_id news)"
proof -
  let ?P = "[p \<leftarrow> persons d. rfid_tag p \<in> set tags \<and> role p = ''student'']"
  have one: "\<forall>p \<in> set ?P. length (student_rows d p) = 1"
    using assms(5,6)
    by (simp add: student_rows_def joined_sections_single unique_keys_def single_section_def)
  have "map sr_person_id (select_verified d tags) = map (\<lambda>p. sr_person_id (hd (student_rows d p))) ?P"
    unfolding select_verified_def concat_singletons [OF one] by simp
  also have "\<dots> = map person_id ?P"
  proof (rule map_cong [OF refl])
    fix p assume "p \<in> set ?P"
    then show "sr_person_id (hd (student_rows d p)) = person_id p"
      using joined_sections_nonempty [of d "person_id p"]
      by (cases "joined_sections d (person_id p)") (simp_all add: student_rows_def)
  qed
  finally have ids: "map sr_person_id (select_verified d tags) = map person_id ?P" .
  have "distinct (map person_id ?P)"
    using assms(5) by (simp add: unique_keys_def distinct_map_filter)
  with ids verify_attendance_rows [OF assms(2,4)] assms(1,3) show ?thesis
    by metis
qed

text \<open>
  C2. The claim: one verification call inserts at most one attendance event for a matched
  person, however many section links the person has. The handler inserts one event for
  every row of the joined SELECT, and a student linked to two sections is two rows: on a
  store whose keys are unique, one scan of Alice's tag inserts two events for her.
  (\<open>one_event_per_student\<close> above is the case with at most one link per student.)
\<close>

theorem two_sections_two_events:
  "unique_keys enrolled_twice
   \<and> attendance enrolled_twice = []
   \<and> map att_person_id (attendance (snd (verify_attendance enrolled_twice
        \<lparr>req_rfid_tags = StrArr [''RFID1''], req_classroom_id = Omitted\<rparr>))) = [1, 1]"
  by (simp add: verify_eval enrolled_twice_def campus_def unique_keys_def)

theorem two_sections_two_events_witness:
  "\<not> distinct (map att_person_id (attendance (snd (verify_attendance enrolled_twice
        \<lparr>req_rfid_tags = StrArr [''RFID1''], req_classroom_id = Omitted\<rparr>))))"
  using two_sections_two_events by simp

text \<open>
  C10. When the store answers, verifying an empty batch succeeds with \<^verbatim>\<open>total_scans\<close>
  0 and two empty lists, and changes nothing but the list of issued statements. When
  \<^verbatim>\<open>classroom_id\<close> is omitted, every attendance event that the call adds to what the
  client reads has classroom 1, and a call that succeeds adds one such event for every
  matched row; with no transaction open on the client the events are appended to the
  table itself.
\<close>

theorem empty_batch_and_default_room:
  "(online d \<and> conn d \<noteq> Aborted \<longrightarrow>
      verify_attendance d \<lparr>req_rfid_tags = StrArr [], req_classroom_id = c\<rparr> =
        (json_ok [(''success'', JBool True),
                  (''total_scans'', JNum 0),
                  (''verified_students'', JArr []),
                  (''unrecognized'', JArr []),
                  (''message'', JStr ''0 students verified, 0 unrecognized tags'')],
         d\<lparr>issued := issued d @ [SelectVerified]\<rparr>))
   \<and> (verify_attendance d body = (r, d') \<and> req_classroom_id body = Omitted \<longrightarrow>
        (\<forall>a \<in> set (attendance (view d')).
            a \<in> set (attendance (view d)) \<or> att_classroom_id a = Some 1)
        \<and> (\<forall>tags. status r = 200 \<and> req_rfid_tags body = StrArr tags \<longrightarrow>
             (\<exists>news. attendance (view d') = attendance (view d) @ news
               \<and> (\<forall>a \<in> set news. att_classroom_id a = Some 1)
               \<and> length news = length (select_verified (view d) tags)))
        \<and> (conn d = Idle \<longrightarrow>
             (\<exists>news. attendance d' = attendance d @ news
               \<and> (\<forall>a \<in> set news. att_classroom_id a = Some 1)
               \<and> (\<forall>tags. status r = 200 \<and> req_rfid_tags body = StrArr tags
                     \<longrightarrow> length news = length (select_verified d tags)))))"
proof (intro conjI impI)
  assume "online d \<and> conn d \<noteq> Aborted"
  then show "verify_attendance d \<lparr>req_rfid_tags = StrArr [], req_classroom_id = c\<rparr> =
        (json_ok [(''success'', JBool True),
                  (''total_scans'', JNum 0),
                  (''verified_students'', JArr []),
                  (''unrecognized'', JArr []),
                  (''message'', JStr ''0 students verified, 0 unrecognized tags'')],
         d\<lparr>issued := issued d @ [SelectVerified]\<rparr>)"
    by (simp add: verify_attendance_def select_verified_def string_of_nat_0 refused_def)
next
  assume a: "verify_attendance d body = (r, d') \<and> req_classroom_id body = Omitted"
  then have run: "verify_attendance d body = (r, d')" and c: "req_classroom_id body = Omitted"
    by simp_all
  from verify_attendance_visible [OF run] c
  show "\<forall>a \<in> set (attendance (view d')).
            a \<in> set (attendance (view d)) \<or> att_classroom_id a = Some 1"
    by (auto simp: classroom_param_def)
next
  assume a: "verify_attendance d body = (r, d') \<and> req_classroom_id body = Omitted"
  then have run: "verify_attendance d body = (r, d')" and c: "req_classroom_id body = Omitted"
    by simp_all
  show "\<forall>tags. status r = 200 \<and> req_rfid_tags body = StrArr tags \<longrightarrow>
             (\<exists>news. attendance (view d') = attendance (view d) @ news
               \<and> (\<forall>a \<in> set news. att_classroom_id a = Some 1)
               \<and> length news = length (select_verified (view d) tags))"
  proof (intro allI impI)
    fix tags
    assume ok: "status r = 200 \<and> req_rfid_tags body = StrArr tags"
    from verify_attendance_accepted [OF run] ok obtain news where
      n: "attendance (view d') = attendance (view d) @ news"
         "\<forall>a \<in> set news. att_classroom_id a = classroom_param (req_classroom_id body)"
         "map att_person_id news = map sr_person_id (select_verified (view d) tags)"
      by blast
    from n(3) have "length news = length (select_verified (view d) tags)"
      by (metis length_map)
    with n(1,2) c show "\<exists>news. attendance (view d') = attendance (view d) @ news
               \<and> (\<forall>a \<in> set news. att_classroom_id a = Some 1)
               \<and> length news = length (select_verified (view d) tags)"
      by (auto simp: classroom_param_def)
  qed
next
  assume a: "verify_attendance d body = (r, d') \<and> req_classroom_id body = Omitted"
    and idle: "conn d = Idle"
  then have run: "verify_attendance d body = (r, d')" and c: "req_classroom_id body = Omitted"
    by simp_all
  from verify_attendance_rows [OF run idle] obtain news where
    n: "attendance d' = attendance d @ news"
       "\<forall>a \<in> set news. att_classroom_id a = classroom_param (req_classroom_id body)"
       "\<forall>tags. status r = 200 \<and> req_rfid_tags body = StrArr tags
           \<longrightarrow> map att_person_id news = map sr_person_id (select_verified d tags)"
    by blast
  from n(2) c have "\<forall>a \<in> set news. att_classroom_id a = Some 1"
    by (simp add: classroom_param_def)
  moreover have "\<forall>tags. status r = 200 \<and> req_rfid_tags body = StrArr tags
                 \<longrightarrow> length news = length (select_verified d tags)"
    using n(3) by (metis length_map)
  ultimately show "\<exists>news. attendance d' = attendance d @ news
           \<and> (\<forall>a \<in> set news. att_classroom_id a = Some 1)
           \<and> (\<forall>tags. status r = 200 \<and> req_rfid_tags body = StrArr tags
                 \<longrightarrow> length news = length (select_verified d tags))"
    using n(1) by blast
qed

theorem empty_batch_and_default_room_witness:
  "online campus \<and> conn campus = Idle
   \<and> fst (verify_attendance campus \<lparr>req_rfid_tags = StrArr [], req_classroom_id = IntValue 7\<rparr>) =
        json_ok [(''success'', JBool True),
                 (''total_scans'', JNum 0),
                 (''verified_students'', JArr []),
                 (''unrecognized'', JArr []),
                 (''message'', JStr ''0 students verified, 0 unrecognized tags'')]
   \<and> attendance (snd (verify_attendance campus
        \<lparr>req_rfid_tags = StrArr [], req_classroom_id = IntValue 7\<rparr>)) = []
   \<and> map att_classroom_id (attendance (snd (verify_attendance campus
        \<lparr>req_rfid_tags = StrArr [''RFID1''], req_classroom_id = Omitted\<rparr>))) = [Some 1]"
proof -
  let ?scan = "\<lparr>req_rfid_tags = StrArr [''RFID1''], req_classroom_id = Omitted\<rparr>"
  let ?r = "fst (verify_attendance campus ?scan)"
  let ?d = "snd (verify_attendance campus ?scan)"
  have on: "online campus \<and> conn campus \<noteq> Aborted"
    by (simp add: campus_def)
  have idle: "conn campus = Idle"
    by (simp add: campus_def)
  have run: "verify_attendance campus ?scan = (?r, ?d) \<and> req_classroom_id ?scan = Omitted"
    by simp
  have ok: "status ?r = 200 \<and> req_rfid_tags ?scan = StrArr [''RFID1'']"
    by (simp add: verify_eval campus_def)
  have rows: "length (select_verified campus [''RFID1'']) = 1"
    by (simp add: verify_eval campus_def)
  have none: "attendance campus = []"
    by (simp add: campus_def)
  note inst = empty_batch_and_default_room [of campus "IntValue 7" ?scan ?r ?d]
  from inst on
  have first: "verify_attendance campus \<lparr>req_rfid_tags = StrArr [], req_classroom_id = IntValue 7\<rparr> =
        (json_ok [(''success'', JBool True),
                  (''total_scans'', JNum 0),
                  (''verified_students'', JArr []),
                  (''unrecognized'', JArr []),
                  (''message'', JStr ''0 students verified, 0 unrecognized tags'')],
         campus\<lparr>issued := issued campus @ [SelectVerified]\<rparr>)"
    by blast
  from inst run idle obtain news where
    n: "attendance ?d = attendance campus @ news"
       "\<forall>a \<in> set news. att_classroom_id a = Some 1"
       "\<forall>tags. status ?r = 200 \<and> req_rfid_tags ?scan = StrArr tags
           \<longrightarrow> length news = length (select_verified campus tags)"
    by blast
  from n(3) ok rows have "length news = 1"
    by metis
  then obtain a where "news = [a]"
    by (cases news) auto
  with n(1,2) none have "map att_classroom_id (attendance ?d) = [Some 1]"
    by simp
  with on idle first none show ?thesis
    by simp
qed

text \<open>
  C6. A verification request whose \<^verbatim>\<open>rfid_tags\<close> is missing or not an array is
  answered with status 400 and the store is left as it was: no statement is issued.
\<close>

theorem non_array_rejected:
  "\<not> isArray (req_rfid_tags body) \<Longrightarrow>
     verify_attendance d body = (failure 400 ''Invalid RFID tags array'', d)"
  by (cases "req_rfid_tags body") (simp_all add: verify_attendance_def)

theorem non_array_rejected_witness:
  "\<not> isArray Undefined
   \<and> verify_attendance campus \<lparr>req_rfid_tags = Undefined, req_classroom_id = Omitted\<rparr> =
       (\<lparr>status = 400, payload = [(''success'', JBool False),
                                  (''error'', JStr ''Invalid RFID tags array'')]\<rparr>, campus)"
  using non_array_rejected [of "\<lparr>req_rfid_tags = Undefined, req_classroom_id = Omitted\<rparr>" campus]
  by (simp add: failure_def json_status_def)

section \<open>Properties of the enrollment\<close>

lemmas add_eval =
  add_student_def enroll_def insert_section_def insert_person_def insert_link_def
  on_error_def arrive_def release_def commit_tx_def rollback_tx_def begin_tx_def
  view_def put_rows_def store_def abort_tx_def join_writes_def no_writes_def Let_def
  unique_violation_def foreign_key_violation_def in_failed_sql_transaction_def

lemma begin_tx_open:
  assumes "begin_tx d0 = Inr d1"
  shows "\<exists>t0. conn d1 = InTx t0 \<and> d1 = d0\<lparr>conn := InTx t0\<rparr> \<and> view d1 = (view d0)\<lparr>conn := InTx t0\<rparr>"
  using assms
  by (auto simp: begin_tx_def view_def store_def no_writes_def split: conn_state.splits)

lemma add_student_offline:
  "\<not> online d \<Longrightarrow> add_student env d body = (None, d\<lparr>issued := issued d @ [Connect]\<rparr>)"
  by (simp add: add_student_def)

lemma add_student_missing:
  assumes "\<not> well_formed body" and "online d"
    and "begin_tx (arrive env Begin (d\<lparr>issued := issued d @ [Connect]\<rparr>)) = Inr d1"
  shows "add_student env d body = (Some missing_fields, release d1)"
  using assms
  by (auto simp: add_student_def Let_def well_formed_def present_def split: option.splits)

lemma add_student_begin_refused:
  assumes "online d"
    and "begin_tx (arrive env Begin (d\<lparr>issued := issued d @ [Connect]\<rparr>)) = Inl code"
  shows "add_student env d body =
           on_error env code (arrive env Begin (d\<lparr>issued := issued d @ [Connect]\<rparr>))"
  using assms by (simp add: add_student_def Let_def)

lemma add_student_run:
  assumes "online d"
    and "req_name body = Some nm" and "req_rfid_tag body = Some tag"
    and "req_section body = Some sec" and "req_id_number body = Some idn"
    and "nm \<noteq> []" and "tag \<noteq> []" and "sec \<noteq> []" and "idn \<noteq> []"
    and "begin_tx (arrive env Begin (d\<lparr>issued := issued d @ [Connect]\<rparr>)) = Inr d1"
    and "d2 = arrive env SelectTag d1"
    and "d3 = arrive env SelectIdNumber d2"
    and "enroll env nm tag sec idn d3 = (res, d7)"
  shows "add_student env d body =
     (if [p \<leftarrow> persons (view d2). rfid_tag p = tag] \<noteq> []
      then (Some (failure 400 ''RFID tag already exists''), release d2)
      else if [p \<leftarrow> persons (view d3). id_number p = Some idn] \<noteq> []
      then (Some (failure 400 ''ID number already exists''), release d3)
      else (case res of
              Inl code \<Rightarrow> on_error env code d7
            | Inr personId \<Rightarrow>
                (Some (json_ok
                   [(''success'', JBool True),
                    (''message'', JStr (''Student '' @ nm @ '' added successfully'')),
                    (''student'', JObj
                       [(''person_id'', JNum personId),
                        (''name'', JStr nm),
                        (''rfid_tag'', JStr tag),
                        (''section'', JStr sec),
                        (''id_number'', JStr idn)])]),
                 release (commit_tx (arrive env Commit d7)))))"
  using assms(1-10,13)
  unfolding assms(11,12)
  by (simp add: add_student_def Let_def split: sum.splits)

lemma enroll_quiet_rows:
  assumes "enroll quiet nm tag sec idn d3 = (res, d7)" and "conn d3 = InTx t0"
  shows "same_rows d3 d7"
  using assms
  by (auto simp: enroll_def insert_section_def insert_person_def insert_link_def
      arrive_def quiet_def put_rows_def abort_tx_def Let_def same_rows_def
      split: if_splits list.splits prod.splits sum.splits option.splits)

lemma add_student_failure_rows:
  assumes "add_student quiet d body = (ro, d')" and "\<not> succeeded ro"
  shows "same_rows d d'"
proof (cases "online d")
  case False
  from assms(1) show ?thesis
    unfolding add_student_offline [OF False] by (auto simp: same_rows_def)
next
  case on: True
  let ?d0 = "arrive quiet Begin (d\<lparr>issued := issued d @ [Connect]\<rparr>)"
  show ?thesis
  proof (cases "begin_tx ?d0")
    case (Inl code)
    from assms(1) show ?thesis
      unfolding add_student_begin_refused [OF on Inl]
      by (auto simp: on_error_def same_rows_def release_def rollback_tx_def arrive_def quiet_def
          Let_def)
  next
    case (Inr d1)
    from begin_tx_open [OF Inr] obtain t0 where
      t0: "conn d1 = InTx t0" "d1 = ?d0\<lparr>conn := InTx t0\<rparr>"
      by blast
    then have rows1: "same_rows d d1"
      by (simp add: same_rows_def arrive_def quiet_def)
    show ?thesis
    proof (cases "well_formed body")
      case False
      from assms(1) rows1 show ?thesis
        unfolding add_student_missing [OF False on Inr]
        by (auto simp: same_rows_def release_def)
    next
      case True
      then obtain nm tag sec idn where
        f: "req_name body = Some nm" "req_rfid_tag body = Some tag"
           "req_section body = Some sec" "req_id_number body = Some idn"
           "nm \<noteq> []" "tag \<noteq> []" "sec \<noteq> []" "idn \<noteq> []"
        by (auto simp: well_formed_def present_def split: option.splits)
      let ?d2 = "arrive quiet SelectTag d1"
      let ?d3 = "arrive quiet SelectIdNumber ?d2"
      obtain res d7 where e: "enroll quiet nm tag sec idn ?d3 = (res, d7)"
        by (cases "enroll quiet nm tag sec idn ?d3")
      have c3: "conn ?d3 = InTx t0"
        using t0(1) by (simp add: arrive_def quiet_def)
      from enroll_quiet_rows [OF e c3] rows1 have rows: "same_rows d d7"
        by (simp add: same_rows_def arrive_def quiet_def)
      from assms rows rows1 show ?thesis
        unfolding add_student_run [OF on f Inr refl refl e]
        by (auto simp: same_rows_def on_error_def succeeded_def json_ok_def release_def
            rollback_tx_def arrive_def quiet_def Let_def split: if_splits sum.splits)
    qed
  qed
qed

lemma add_student_success:
  assumes "add_student env d body = (Some r, d')" and "status r = 200"
  shows "\<exists>nm tag sec idn pid d1 d7.
           req_name body = Some nm \<and> req_rfid_tag body = Some tag
         \<and> req_section body = Some sec \<and> req_id_number body = Some idn
         \<and> begin_tx (arrive env Begin (d\<lparr>issued := issued d @ [Connect]\<rparr>)) = Inr d1
         \<and> enroll env nm tag sec idn
              (arrive env SelectIdNumber (arrive env SelectTag d1)) = (Inr pid, d7)
         \<and> d' = release (commit_tx (arrive env Commit d7))"
  using assms
  by (auto simp: add_student_def Let_def missing_fields_def failure_def json_status_def
      on_error_def split: option.splits if_splits prod.splits sum.splits)

lemma enroll_quiet_new_section:
  assumes "enroll quiet nm tag sec idn d3 = (Inr pid, d7)"
    and "conn d3 = InTx t0"
    and "sec \<notin> set (map section_name (sections (view d3)))"
  shows "same_rows d3 d7
       \<and> (\<exists>t7. conn d7 = InTx t7
            \<and> tx_sections t7 = tx_sections t0 @
                 [\<lparr>section_id = sections_seq d3 + 1, section_name = sec\<rparr>]
            \<and> tx_links t7 = tx_links t0 @ [(pid, sections_seq d3 + 1)]
            \<and> map person_id (tx_persons t7) = map person_id (tx_persons t0) @ [pid])"
proof -
  from assms(3) have none: "[s \<leftarrow> sections (view d3). section_name s = sec] = []"
    by (auto simp: filter_empty_conv)
  have v: "sections (view (d3\<lparr>issued := issued d3 @ [SelectSection]\<rparr>)) = sections (view d3)"
    by simp
  show ?thesis
    using assms(1,2) none
    unfolding enroll_def arrive_def quiet_def Let_def v
    by (auto simp: insert_section_def insert_person_def insert_link_def arrive_def quiet_def
        put_rows_def abort_tx_def join_writes_def no_writes_def Let_def same_rows_def
        split: if_splits)
qed

lemma enroll_quiet_known_section:
  assumes "enroll quiet nm tag sec idn d3 = (Inr pid, d7)"
    and "conn d3 = InTx t0"
    and "sec \<in> set (map section_name (sections (view d3)))"
  shows "same_rows d3 d7
       \<and> (\<exists>t7 sid. conn d7 = InTx t7
            \<and> tx_sections t7 = tx_sections t0
            \<and> tx_links t7 = tx_links t0 @ [(pid, sid)]
            \<and> \<lparr>section_id = sid, section_name = sec\<rparr> \<in> set (sections (view d3))
            \<and> map person_id (tx_persons t7) = map person_id (tx_persons t0) @ [pid])"
proof -
  from assms(3) obtain s rest where
    some: "[s \<leftarrow> sections (view d3). section_name s = sec] = s # rest"
    by (cases "[s \<leftarrow> sections (view d3). section_name s = sec]") (auto simp: filter_empty_conv)
  then have "s \<in> set [s \<leftarrow> sections (view d3). section_name s = sec]"
    by simp
  then have s: "s \<in> set (sections (view d3))" "section_name s = sec"
    by simp_all
  then have row: "\<lparr>section_id = section_id s, section_name = sec\<rparr> \<in> set (sections (view d3))"
    by (metis section_row.surjective old.unit.exhaust)
  have v: "sections (view (d3\<lparr>issued := issued d3 @ [SelectSection]\<rparr>)) = sections (view d3)"
    by simp
  show ?thesis
    using assms(1,2) some row
    unfolding enroll_def arrive_def quiet_def Let_def v
    by (auto simp: insert_person_def insert_link_def arrive_def quiet_def
        put_rows_def abort_tx_def join_writes_def no_writes_def Let_def same_rows_def
        split: if_splits)
qed

text \<open>
  C8. For an enrollment running alone with section name \<open>sec\<close>. When it does not
  succeed, the sections table is unchanged. When it succeeds, no transaction stays open;
  if a section of that name was there, the table holds the sections that were there and
  no other; if none was, it holds them and exactly one more row, with that name and the
  next id of the sequence. A successful enrollment appends one link, from the new person
  to a section row of that name, which is a row that was there before when the name was
  known. Names are compared as they are, so \<^verbatim>\<open>cs-a\<close> is new beside \<^verbatim>\<open>CS-A\<close>.
  (The sections that were there are those of \<open>view d\<close>: the table \<open>sections d\<close> when
  no transaction is open on the client.)
\<close>

theorem section_get_or_create:
  assumes "req_section body = Some sec"
    and "add_student quiet d body = (ro, d')"
  shows "(\<not> succeeded ro \<longrightarrow> sections d' = sections d)
       \<and> (succeeded ro \<longrightarrow> conn d' = Idle)
       \<and> (succeeded ro \<and> sec \<in> set (map section_name (sections (view d)))
            \<longrightarrow> sections d' = sections (view d))
       \<and> (succeeded ro \<and> sec \<notin> set (map section_name (sections (view d)))
            \<longrightarrow> sections d' = sections (view d) @
                  [\<lparr>section_id = sections_seq d + 1, section_name = sec\<rparr>])
       \<and> (succeeded ro
            \<longrightarrow> (\<exists>pid sid. student_sections d' = student_sections (view d) @ [(pid, sid)]
                  \<and> map person_id (persons d') = map person_id (persons (view d)) @ [pid]
                  \<and> \<lparr>section_id = sid, section_name = sec\<rparr> \<in> set (sections d')
                  \<and> (sec \<in> set (map section_name (sections (view d)))
                       \<longrightarrow> \<lparr>section_id = sid, section_name = sec\<rparr> \<in> set (sections (view d)))))"
proof (cases "succeeded ro")
  case False
  with add_student_failure_rows [OF assms(2)] show ?thesis
    by (simp add: same_rows_def)
next
  case True
  then obtain r where r: "ro = Some r" "status r = 200"
    by (auto simp: succeeded_def split: option.splits)
  from add_student_success [of quiet d body r d'] assms r
  obtain nm tag idn pid d1 d7 where
    b: "begin_tx (arrive quiet Begin (d\<lparr>issued := issued d @ [Connect]\<rparr>)) = Inr d1"
    and e: "enroll quiet nm tag sec idn
              (arrive quiet SelectIdNumber (arrive quiet SelectTag d1)) = (Inr pid, d7)"
    and d': "d' = release (commit_tx (arrive quiet Commit d7))"
    by auto
  let ?d3 = "arrive quiet SelectIdNumber (arrive quiet SelectTag d1)"
  from begin_tx_open [OF b] obtain t0 where
    t0: "conn d1 = InTx t0"
        "d1 = (arrive quiet Begin (d\<lparr>issued := issued d @ [Connect]\<rparr>))\<lparr>conn := InTx t0\<rparr>"
        "view d1 = (view (arrive quiet Begin (d\<lparr>issued := issued d @ [Connect]\<rparr>)))\<lparr>conn := InTx t0\<rparr>"
    by blast
  have c3: "conn ?d3 = InTx t0"
    using t0(1) by (simp add: arrive_def quiet_def)
  have com: "sections ?d3 = sections d" "persons ?d3 = persons d"
      "student_sections ?d3 = student_sections d" "sections_seq ?d3 = sections_seq d"
    unfolding t0(2) by (simp_all add: arrive_def quiet_def)
  have vis: "sections (view ?d3) = sections (view d)" "persons (view ?d3) = persons (view d)"
      "student_sections (view ?d3) = student_sections (view d)"
    using t0(3) by (simp_all add: arrive_def quiet_def)
  have pend: "sections (view d) = sections d @ tx_sections t0"
      "persons (view d) = persons d @ tx_persons t0"
      "student_sections (view d) = student_sections d @ tx_links t0"
    using vis c3 com by (simp_all add: view_def store_def)
  show ?thesis
  proof (cases "sec \<in> set (map section_name (sections (view d)))")
    case known: True
    then have k3: "sec \<in> set (map section_name (sections (view ?d3)))"
      by (simp add: vis)
    from enroll_quiet_known_section [OF e c3 k3] obtain t7 sid where
      t7: "same_rows ?d3 d7" "conn d7 = InTx t7" "tx_sections t7 = tx_sections t0"
          "tx_links t7 = tx_links t0 @ [(pid, sid)]"
          "\<lparr>section_id = sid, section_name = sec\<rparr> \<in> set (sections (view ?d3))"
          "map person_id (tx_persons t7) = map person_id (tx_persons t0) @ [pid]"
      by blast
    from t7 com pend vis True known d' show ?thesis
      by (auto simp: release_def commit_tx_def arrive_def quiet_def store_def same_rows_def Let_def)
  next
    case new: False
    then have n3: "sec \<notin> set (map section_name (sections (view ?d3)))"
      by (simp add: vis)
    from enroll_quiet_new_section [OF e c3 n3] obtain t7 where
      t7: "same_rows ?d3 d7" "conn d7 = InTx t7"
          "tx_sections t7 = tx_sections t0 @
                 [\<lparr>section_id = sections_seq ?d3 + 1, section_name = sec\<rparr>]"
          "tx_links t7 = tx_links t0 @ [(pid, sections_seq ?d3 + 1)]"
          "map person_id (tx_persons t7) = map person_id (tx_persons t0) @ [pid]"
      by blast
    from t7 com pend True new d' show ?thesis
      by (auto simp: release_def commit_tx_def arrive_def quiet_def store_def same_rows_def Let_def)
  qed
qed

theorem section_get_or_create_witness:
  "succeeded (fst (add_student quiet campus (bob\<lparr>req_section := Some ''cs-a''\<rparr>)))
   \<and> ''cs-a'' \<notin> set (map section_name (sections (view campus)))
   \<and> sections (snd (add_student quiet campus (bob\<lparr>req_section := Some ''cs-a''\<rparr>))) =
        sections campus @ [\<lparr>section_id = 3, section_name = ''cs-a''\<rparr>]
   \<and> succeeded (fst (add_student quiet
        (snd (add_student quiet campus (bob\<lparr>req_section := Some ''cs-a''\<rparr>))) carol))
   \<and> sections (snd (add_student quiet
        (snd (add_student quiet campus (bob\<lparr>req_section := Some ''cs-a''\<rparr>))) carol)) =
        sections campus @ [\<lparr>section_id = 3, section_name = ''cs-a''\<rparr>]
   \<and> student_sections (snd (add_student quiet
        (snd (add_student quiet campus (bob\<lparr>req_section := Some ''cs-a''\<rparr>))) carol)) =
        [(1, 1), (2, 3), (3, 3)]"
proof -
  let ?b = "bob\<lparr>req_section := Some ''cs-a''\<rparr>"
  let ?r1 = "fst (add_student quiet campus ?b)"
  let ?d1 = "snd (add_student quiet campus ?b)"
  let ?r2 = "fst (add_student quiet ?d1 carol)"
  let ?d2 = "snd (add_student quiet ?d1 carol)"
  have first: "add_student quiet campus ?b =
      (Some (json_ok
         [(''success'', JBool True),
          (''message'', JStr ''Student Bob added successfully''),
          (''student'', JObj [(''person_id'', JNum 2), (''name'', JStr ''Bob''),
             (''rfid_tag'', JStr ''RFID2''), (''section'', JStr ''cs-a''),
             (''id_number'', JStr ''S002'')])]),
       campus\<lparr>persons := persons campus @
                 [\<lparr>person_id = 2, name = ''Bob'', rfid_tag = ''RFID2'', role = ''student'',
                   id_number = Some ''S002''\<rparr>],
               sections := sections campus @ [\<lparr>section_id = 3, section_name = ''cs-a''\<rparr>],
               student_sections := [(1, 1), (2, 3)],
               persons_seq := 2, sections_seq := 3,
               issued := [Connect, Begin, SelectTag, SelectIdNumber, SelectSection,
                          InsertSection, InsertPerson, InsertLink, Commit, Release]\<rparr>)"
    by (simp add: add_eval quiet_def campus_def bob_def)
  have s1: "succeeded ?r1"
    unfolding first by (simp add: succeeded_def json_ok_def)
  have v0: "view campus = campus"
    by (simp add: view_def campus_def)
  have new: "''cs-a'' \<notin> set (map section_name (sections (view campus)))"
    unfolding v0 by (simp add: campus_def)
  have sec1: "req_section ?b = Some ''cs-a''"
    by simp
  have run1: "add_student quiet campus ?b = (?r1, ?d1)"
    by simp
  from section_get_or_create [OF sec1 run1] s1 new
  have grown: "sections ?d1 = sections (view campus) @
        [\<lparr>section_id = sections_seq campus + 1, section_name = ''cs-a''\<rparr>]"
    and idle: "conn ?d1 = Idle"
    by blast+
  have v1: "view ?d1 = ?d1"
    using idle by (rule view_idle)
  have s2: "succeeded ?r2"
    unfolding first by (simp add: add_eval quiet_def campus_def carol_def succeeded_def json_ok_def)
  have links: "student_sections ?d2 = [(1, 1), (2, 3), (3, 3)]"
    unfolding first by (simp add: add_eval quiet_def campus_def carol_def)
  have known: "''cs-a'' \<in> set (map section_name (sections (view ?d1)))"
    unfolding v1 grown by simp
  have sec2: "req_section carol = Some ''cs-a''"
    by (simp add: carol_def)
  have run2: "add_student quiet ?d1 carol = (?r2, ?d2)"
    by simp
  from section_get_or_create [OF sec2 run2] s2 known
  have same: "sections ?d2 = sections (view ?d1)"
    by blast
  from s1 new grown s2 same links show ?thesis
    unfolding v1 v0 by (simp add: campus_def)
qed

text \<open>
  C4, as the claim states it: a uniqueness violation raised by an INSERT after the checks
  passed is reported as DuplicateTag or DuplicateIdentifier, naming the field that
  collided. The \<^verbatim>\<open>catch\<close> block has one message for SQLSTATE 23505: a rival with the
  same tag, a rival with the same identifier and a rival creating the same section all
  get the same response, which is neither of the two messages of the checks.
\<close>

theorem collision_not_identified:
  "fst (add_student (rival ''RFID2'' ''S777'') campus bob) =
     Some (failure 400 ''Duplicate RFID tag or ID number'')
   \<and> fst (add_student (rival ''RFID7'' ''S002'') campus bob) =
     Some (failure 400 ''Duplicate RFID tag or ID number'')
   \<and> fst (add_student (rival_section ''cs-a'') campus (bob\<lparr>req_section := Some ''cs-a''\<rparr>)) =
     Some (failure 400 ''Duplicate RFID tag or ID number'')
   \<and> failure 400 ''Duplicate RFID tag or ID number'' \<noteq> failure 400 ''RFID tag already exists''
   \<and> failure 400 ''Duplicate RFID tag or ID number'' \<noteq> failure 400 ''ID number already exists''"
  by (simp add: add_eval rival_def rival_section_def campus_def bob_def failure_def json_status_def)

text \<open>
  C4, amended. When the store is reachable, the request is well formed, BEGIN is accepted,
  both duplicate checks pass and a statement of the enrollment then raises a uniqueness
  violation, the response is status 400 with the one error
  \<^verbatim>\<open>Duplicate RFID tag or ID number\<close> (not the status 500 of other failures), sent after
  ROLLBACK: the rows of the request are never committed.
\<close>

theorem unique_violation_reported:
  assumes "online d"
    and "req_name body = Some nm" and "req_rfid_tag body = Some tag"
    and "req_section body = Some sec" and "req_id_number body = Some idn"
    and "nm \<noteq> []" and "tag \<noteq> []" and "sec \<noteq> []" and "idn \<noteq> []"
    and "begin_tx (arrive env Begin (d\<lparr>issued := issued d @ [Connect]\<rparr>)) = Inr d1"
    and "d2 = arrive env SelectTag d1"
    and "tag \<notin> set (map rfid_tag (persons (view d2)))"
    and "d3 = arrive env SelectIdNumber d2"
    and "Some idn \<notin> set (map id_number (persons (view d3)))"
    and "enroll env nm tag sec idn d3 = (Inl unique_violation, d7)"
  shows "add_student env d body =
           (Some (failure 400 ''Duplicate RFID tag or ID number''),
            release (rollback_tx (arrive env Rollback d7)))"
proof -
  from assms(12) have no_tag: "[p \<leftarrow> persons (view d2). rfid_tag p = tag] = []"
    by (auto simp: filter_empty_conv)
  from assms(14) have no_id: "[p \<leftarrow> persons (view d3). id_number p = Some idn] = []"
    by (force simp: filter_empty_conv)
  show ?thesis
    unfolding add_student_run [OF assms(1-11) assms(13) assms(15)]
    using no_tag no_id by (simp add: on_error_def unique_violation_def)
qed

theorem unique_violation_reported_witness:
  "online campus
   \<and> begin_tx (arrive (rival ''RFID7'' ''S002'') Begin (campus\<lparr>issued := issued campus @ [Connect]\<rparr>)) =
       Inr (campus\<lparr>issued := [Connect, Begin], conn := InTx no_writes\<rparr>)
   \<and> ''RFID2'' \<notin> set (map rfid_tag (persons (view
        (arrive (rival ''RFID7'' ''S002'') SelectTag
           (campus\<lparr>issued := [Connect, Begin], conn := InTx no_writes\<rparr>)))))
   \<and> Some ''S002'' \<notin> set (map id_number (persons (view
        (arrive (rival ''RFID7'' ''S002'') SelectIdNumber
          (arrive (rival ''RFID7'' ''S002'') SelectTag
             (campus\<lparr>issued := [Connect, Begin], conn := InTx no_writes\<rparr>))))))
   \<and> fst (enroll (rival ''RFID7'' ''S002'') ''Bob'' ''RFID2'' ''CS-A'' ''S002''
        (arrive (rival ''RFID7'' ''S002'') SelectIdNumber
          (arrive (rival ''RFID7'' ''S002'') SelectTag
             (campus\<lparr>issued := [Connect, Begin], conn := InTx no_writes\<rparr>)))) = Inl unique_violation
   \<and> fst (add_student (rival ''RFID7'' ''S002'') campus bob) =
        Some \<lparr>status = 400, payload = [(''success'', JBool False),
                (''error'', JStr ''Duplicate RFID tag or ID number'')]\<rparr>
   \<and> map name (persons (snd (add_student (rival ''RFID7'' ''S002'') campus bob))) =
        [''Alice'', ''Eve'']
   \<and> conn (snd (add_student (rival ''RFID7'' ''S002'') campus bob)) = Idle"
proof -
  let ?env = "rival ''RFID7'' ''S002''"
  let ?d1 = "campus\<lparr>issued := [Connect, Begin], conn := InTx no_writes\<rparr>"
  let ?d2 = "arrive ?env SelectTag ?d1"
  let ?d3 = "arrive ?env SelectIdNumber ?d2"
  let ?d7 = "snd (enroll ?env ''Bob'' ''RFID2'' ''CS-A'' ''S002'' ?d3)"
  have on: "online campus"
    by (simp add: campus_def)
  have f: "req_name bob = Some ''Bob''" "req_rfid_tag bob = Some ''RFID2''"
      "req_section bob = Some ''CS-A''" "req_id_number bob = Some ''S002''"
    by (simp_all add: bob_def)
  have ne: "''Bob'' \<noteq> []" "''RFID2'' \<noteq> []" "''CS-A'' \<noteq> []" "''S002'' \<noteq> []"
    by simp_all
  have b: "begin_tx (arrive ?env Begin (campus\<lparr>issued := issued campus @ [Connect]\<rparr>)) = Inr ?d1"
    by (simp add: begin_tx_def arrive_def rival_def campus_def)
  have d3: "?d3 = campus\<lparr>issued := [Connect, Begin, SelectTag, SelectIdNumber],
                         conn := InTx no_writes\<rparr>"
    by (simp add: arrive_def rival_def campus_def)
  have d2: "?d2 = campus\<lparr>issued := [Connect, Begin, SelectTag], conn := InTx no_writes\<rparr>"
    by (simp add: arrive_def rival_def campus_def)
  have no_tag: "''RFID2'' \<notin> set (map rfid_tag (persons (view ?d2)))"
    unfolding d2 by (simp add: campus_def view_def)
  have no_id: "Some ''S002'' \<notin> set (map id_number (persons (view ?d3)))"
    unfolding d3 by (simp add: campus_def view_def)
  have raised: "fst (enroll ?env ''Bob'' ''RFID2'' ''CS-A'' ''S002'' ?d3) = Inl unique_violation"
    unfolding d3
    by (simp add: enroll_def insert_person_def arrive_def rival_def campus_def no_writes_def
        view_def store_def abort_tx_def Let_def)
  then have e: "enroll ?env ''Bob'' ''RFID2'' ''CS-A'' ''S002'' ?d3 = (Inl unique_violation, ?d7)"
    by (metis prod.collapse)
  have rows: "map name (persons (release (rollback_tx (arrive ?env Rollback ?d7)))) = [''Alice'', ''Eve'']"
      "conn (release (rollback_tx (arrive ?env Rollback ?d7))) = Idle"
    unfolding d3
    by (simp_all add: enroll_def insert_person_def arrive_def rival_def campus_def no_writes_def
        view_def store_def abort_tx_def rollback_tx_def Let_def release_def)
  from unique_violation_reported [OF on f ne b refl no_tag refl no_id e]
  have "add_student ?env campus bob =
          (Some (failure 400 ''Duplicate RFID tag or ID number''),
           release (rollback_tx (arrive ?env Rollback ?d7)))" .
  with rows on b no_tag no_id raised show ?thesis
    by (simp add: failure_def json_status_def)
qed

text \<open>
  The early returns of the handler, on a client with no transaction open: the response is
  sent and the client is released with the transaction of BEGIN still open.
\<close>

lemma early_return_missing_field:
  assumes "\<not> well_formed body" and "online d" and "conn d = Idle"
  shows "add_student quiet d body =
           (Some missing_fields,
            d\<lparr>issued := issued d @ [Connect, Begin, Release], conn := InTx no_writes\<rparr>)"
  using assms
  by (auto simp: add_student_def begin_tx_def arrive_def release_def quiet_def Let_def
      well_formed_def present_def split: option.splits)

lemma early_return_duplicate_tag:
  assumes "well_formed body" and "online d" and "conn d = Idle"
    and "req_rfid_tag body = Some tag" and "tag \<in> set (map rfid_tag (persons d))"
  shows "add_student quiet d body =
           (Some (failure 400 ''RFID tag already exists''),
            d\<lparr>issued := issued d @ [Connect, Begin, SelectTag, Release],
              conn := InTx no_writes\<rparr>)"
proof -
  from assms(5) have found: "[p \<leftarrow> persons d. rfid_tag p = tag] \<noteq> []"
    by (auto simp: filter_empty_conv)
  show ?thesis
    using assms(1-4) found
    by (auto simp: add_student_def begin_tx_def arrive_def release_def quiet_def Let_def
        view_def store_def no_writes_def well_formed_def present_def split: option.splits)
qed

text \<open>
  C3. The claim: an enrollment with a tag that exists fails with DuplicateTag and is fully
  rolled back. The handler answers 400 \<^verbatim>\<open>RFID tag already exists\<close> and creates no row,
  but it returns without ROLLBACK (the \<^verbatim>\<open>catch\<close> block sends one) and releases the
  client with the transaction open. On the sample store: the next scan of Alice's tag is
  answered with status 200, its attendance event is written inside that transaction and
  not committed, and the ROLLBACK of a later refused enrollment discards it.
\<close>

theorem duplicate_tag_leaves_transaction_open:
  "conn campus = Idle
   \<and> add_student quiet campus duplicate =
       (Some (failure 400 ''RFID tag already exists''),
        campus\<lparr>issued := [Connect, Begin, SelectTag, Release], conn := InTx no_writes\<rparr>)
   \<and> status (fst (verify_attendance (snd (add_student quiet campus duplicate)) scan)) = 200
   \<and> attendance (snd (verify_attendance (snd (add_student quiet campus duplicate)) scan)) = []
   \<and> map att_person_id (attendance (view
        (snd (verify_attendance (snd (add_student quiet campus duplicate)) scan)))) = [1]
   \<and> fst (add_student (rival ''RFID7'' ''S002'')
        (snd (verify_attendance (snd (add_student quiet campus duplicate)) scan)) bob) =
       Some (failure 400 ''Duplicate RFID tag or ID number'')
   \<and> attendance (view (snd (add_student (rival ''RFID7'' ''S002'')
        (snd (verify_attendance (snd (add_student quiet campus duplicate)) scan)) bob))) = []"
proof -
  have first: "add_student quiet campus duplicate =
       (Some (failure 400 ''RFID tag already exists''),
        campus\<lparr>issued := [Connect, Begin, SelectTag, Release], conn := InTx no_writes\<rparr>)"
    by (simp add: add_eval quiet_def campus_def duplicate_def bob_def)
  have second: "snd (verify_attendance (snd (add_student quiet campus duplicate)) scan) =
        campus\<lparr>issued := [Connect, Begin, SelectTag, Release, SelectVerified, InsertAttendance],
               attendance_seq := 1,
               conn := InTx (no_writes\<lparr>tx_attendance :=
                 [\<lparr>attendance_id = 1, att_person_id = 1, att_classroom_id = Some 1,
                   timestamp = 0\<rparr>]\<rparr>)\<rparr>"
    unfolding first by (simp add: verify_eval join_writes_def campus_def scan_def)
  have ok: "status (fst (verify_attendance (snd (add_student quiet campus duplicate)) scan)) = 200"
    unfolding first by (simp add: verify_eval join_writes_def campus_def scan_def)
  have third: "fst (add_student (rival ''RFID7'' ''S002'')
        (snd (verify_attendance (snd (add_student quiet campus duplicate)) scan)) bob) =
       Some (failure 400 ''Duplicate RFID tag or ID number'')"
    unfolding second
    by (simp add: add_eval rival_def campus_def bob_def)
  have lost: "attendance (view (snd (add_student (rival ''RFID7'' ''S002'')
        (snd (verify_attendance (snd (add_student quiet campus duplicate)) scan)) bob))) = []"
    unfolding second
    by (simp add: add_eval rival_def campus_def bob_def)
  show ?thesis
    using first ok third lost
    unfolding second
    by (simp add: campus_def view_def store_def no_writes_def)
qed

theorem duplicate_tag_leaves_transaction_open_witness:
  "conn (snd (add_student quiet campus duplicate)) \<noteq> Idle
   \<and> Rollback \<notin> set (issued (snd (add_student quiet campus duplicate)))"
  using duplicate_tag_leaves_transaction_open by simp

text \<open>
  C5. The claim: an enrollment with a missing field fails with InvalidInput and no storage
  access is attempted, no transaction issued. The handler takes a client and sends BEGIN
  before it looks at the fields, answers 400, and returns without COMMIT or ROLLBACK, so
  the transaction stays open on the released client: the event of the next scan is not
  committed.
\<close>

theorem missing_field_opens_transaction:
  "issued campus = [] \<and> conn campus = Idle
   \<and> add_student quiet campus nameless =
       (Some (failure 400 ''Missing required fields: name, rfid_tag, section, id_number''),
        campus\<lparr>issued := [Connect, Begin, Release], conn := InTx no_writes\<rparr>)
   \<and> status (fst (verify_attendance (snd (add_student quiet campus nameless)) scan)) = 200
   \<and> attendance (snd (verify_attendance (snd (add_student quiet campus nameless)) scan)) = []"
proof -
  have first: "add_student quiet campus nameless =
       (Some (failure 400 ''Missing required fields: name, rfid_tag, section, id_number''),
        campus\<lparr>issued := [Connect, Begin, Release], conn := InTx no_writes\<rparr>)"
    by (simp add: add_eval quiet_def campus_def nameless_def bob_def missing_fields_def)
  have "status (fst (verify_attendance (snd (add_student quiet campus nameless)) scan)) = 200"
    "attendance (snd (verify_attendance (snd (add_student quiet campus nameless)) scan)) = []"
    unfolding first by (simp_all add: verify_eval join_writes_def campus_def scan_def)
  with first show ?thesis
    by (simp add: campus_def)
qed

theorem missing_field_opens_transaction_witness:
  "Begin \<in> set (issued (snd (add_student quiet campus nameless)))
   \<and> conn (snd (add_student quiet campus nameless)) \<noteq> Idle"
  using missing_field_opens_transaction by simp

section \<open>Properties of the responses\<close>

lemma flagged_failure: "code \<noteq> 200 \<Longrightarrow> flagged (failure code msg)"
  by (simp add: flagged_def failure_def json_status_def)

lemma flagged_ok: "flagged (json_ok ((''success'', JBool True) # rest))"
  by (simp add: flagged_def json_ok_def)

lemma flagged_get_sections: "get_sections d = (r, d') \<Longrightarrow> flagged r"
  by (auto simp: get_sections_def Let_def flagged_failure flagged_ok split: if_splits)

lemma flagged_get_students: "get_students d sn = (r, d') \<Longrightarrow> flagged r"
  by (auto simp: get_students_def Let_def flagged_failure flagged_ok split: if_splits)

lemma flagged_get_attendance: "get_attendance pg d q = (r, d') \<Longrightarrow> flagged r"
  by (auto simp: get_attendance_def Let_def flagged_failure flagged_ok
      split: if_splits sum.splits)

lemma flagged_init_db: "init_db d = (r, d') \<Longrightarrow> flagged r"
  by (auto simp: init_db_def Let_def flagged_failure flagged_ok split: if_splits)

lemma flagged_verify_attendance: "verify_attendance d body = (r, d') \<Longrightarrow> flagged r"
  by (auto simp: verify_attendance_def Let_def flagged_failure flagged_ok
      split: if_splits reqval.splits prod.splits)

lemma flagged_on_error: "on_error env code d = (Some r, d') \<Longrightarrow> flagged r"
  by (auto simp: on_error_def Let_def flagged_failure split: if_splits)

lemma flagged_add_student: "add_student env d body = (Some r, d') \<Longrightarrow> flagged r"
  by (auto simp: add_student_def Let_def missing_fields_def flagged_failure flagged_ok
      split: if_splits option.splits prod.splits sum.splits dest: flagged_on_error)

text \<open>
  C9, as the claim states it: every payload of every endpoint carries a boolean success
  flag. The payload of \<^verbatim>\<open>GET /api/health\<close> has the members \<^verbatim>\<open>status\<close> and
  \<^verbatim>\<open>message\<close> only.
\<close>

theorem health_has_no_flag:
  "fst (handle plain_pg quiet campus GetHealth) =
     Some \<lparr>status = 200, payload = [(''status'', JStr ''OK''),
                                     (''message'', JStr ''NFC Attendance API is running'')]\<rparr>
   \<and> map_of [(''status'', JStr ''OK''), (''message'', JStr ''NFC Attendance API is running'')]
        ''success'' = None"
  by (simp add: handle_def health_def json_ok_def)

text \<open>
  C9, amended. Every response other than that of the health check (the responses of the
  error-handling middleware and of the 404 handler included) carries a boolean
  \<^verbatim>\<open>success\<close> member, true exactly for status 200, and a string \<^verbatim>\<open>error\<close>
  member when it is false.
\<close>

theorem payloads_flagged:
  assumes "req \<noteq> GetHealth"
    and "handle pg env d req = (Some r, d')"
  shows "\<exists>b. map_of (payload r) ''success'' = Some (JBool b)
           \<and> (b \<longleftrightarrow> status r = 200)
           \<and> (\<not> b \<longrightarrow> (\<exists>msg. map_of (payload r) ''error'' = Some (JStr msg)))"
proof -
  have "flagged r"
  proof (cases req)
    case GetHealth
    with assms(1) show ?thesis by simp
  next
    case GetSections
    with assms(2) show ?thesis
      by (auto simp: handle_def split: prod.splits dest: flagged_get_sections)
  next
    case (PostVerifyAttendance body)
    with assms(2) show ?thesis
      by (auto simp: handle_def split: prod.splits dest: flagged_verify_attendance)
  next
    case (PostAddStudent body)
    with assms(2) show ?thesis
      by (auto simp: handle_def dest: flagged_add_student)
  next
    case (GetAttendance q)
    with assms(2) show ?thesis
      by (auto simp: handle_def split: prod.splits dest: flagged_get_attendance)
  next
    case (GetStudents sn)
    with assms(2) show ?thesis
      by (auto simp: handle_def split: prod.splits dest: flagged_get_students)
  next
    case PostInitDb
    with assms(2) show ?thesis
      by (auto simp: handle_def split: prod.splits dest: flagged_init_db)
  next
    case MalformedBody
    with assms(2) show ?thesis
      by (auto simp: handle_def flagged_failure)
  next
    case OtherRoute
    with assms(2) show ?thesis
      by (auto simp: handle_def flagged_failure)
  qed
  then show ?thesis
    by (auto simp: flagged_def split: option.splits json.splits)
qed

theorem payloads_flagged_witness:
  "OtherRoute \<noteq> GetHealth
   \<and> handle plain_pg quiet campus OtherRoute =
        (Some \<lparr>status = 404, payload = [(''success'', JBool False),
                                         (''error'', JStr ''Endpoint not found'')]\<rparr>, campus)
   \<and> map_of (payload \<lparr>status = 404, payload = [(''success'', JBool False),
                                         (''error'', JStr ''Endpoint not found'')]\<rparr>) ''success''
        = Some (JBool False)"
proof -
  let ?r = "\<lparr>status = 404, payload = [(''success'', JBool False),
                                       (''error'', JStr ''Endpoint not found'')]\<rparr>"
  have route: "OtherRoute \<noteq> GetHealth"
    by simp
  have run: "handle plain_pg quiet campus OtherRoute = (Some ?r, campus)"
    by (simp add: handle_def failure_def json_status_def)
  from payloads_flagged [OF route run]
  obtain b where "map_of (payload ?r) ''success'' = Some (JBool b)" "b \<longleftrightarrow> status ?r = 200"
    by blast
  then have "map_of (payload ?r) ''success'' = Some (JBool False)"
    by simp
  with route run show ?thesis
    by blast
qed

end
